theory Spec2Isabelle
  imports Main "HOL-Library.Word"
begin

section \<open>Data model\<close>

text \<open>
  The library targets the AVR architecture (it includes \<^verbatim>\<open>util/atomic.h\<close>): a pin number
  is a \<^verbatim>\<open>uint8_t\<close> and \<^verbatim>\<open>long\<close> is a 32-bit two's complement integer. The position counter
  is therefore a 32-bit word; \<open>sint\<close> reads it as the signed value. The C++ standard
  leaves the overflow of \<^verbatim>\<open>position++\<close> at \<^verbatim>\<open>LONG_MAX\<close> undefined; the AVR instruction
  sequence wraps, and so does the word addition here. Statements about the signed value
  carry the range hypothesis explicitly.
\<close>

type_synonym pin = "8 word"
type_synonym long = "32 word"

text \<open>An object is identified by its address (the value of \<^verbatim>\<open>this\<close>).\<close>

type_synonym addr = nat

text \<open>Arduino constants: the pin modes and the interrupt trigger modes.\<close>

datatype pinmode = INPUT | OUTPUT | INPUT_PULLUP

datatype trigger = CHANGE | FALLING | RISING

text \<open>
  The dynamic type of an object decides what the virtual functions \<^verbatim>\<open>getPinA()\<close> and
  \<^verbatim>\<open>getPinB()\<close> return: the class \<^verbatim>\<open>RotEncoder\<close> itself, or the template instance
  \<^verbatim>\<open>RotEncoderPins<PinA, PinB>\<close>.
\<close>

datatype dyntype = RotEncoder_class | RotEncoderPins pin pin

text \<open>The data members of \<^verbatim>\<open>class RotEncoder\<close> (RotEncoder.h, lines 72 to 75).\<close>

record RotEncoder =
  vptr :: dyntype
  position :: long
  cntflg :: bool
  lrflg :: bool
  inA :: bool
  inB :: bool

text \<open>
  The log of the stores to the static pointer \<^verbatim>\<open>intHandle\<close>, of the reads that the
  foreground makes of a position counter, and of the platform calls that configure the
  hardware, in program order. A read is logged with the address of the object and with the
  interrupt enable bit at the moment of the read: \<open>False\<close> when the read is made with the
  interrupts disabled, so that the handler cannot run in the middle of it.
\<close>

datatype event =
    Store_intHandle "addr option"
  | Read_position addr bool
  | PinMode pin pinmode
  | DigitalWrite pin bool
  | AttachInterrupt int trigger
  | DetachInterrupt int

text \<open>
  The state of the whole program:
  \<^item> \<open>intHandle\<close>: the static member \<^verbatim>\<open>RotEncoder::intHandle\<close>, \<open>None\<close> for \<^verbatim>\<open>NULL\<close>;
  \<^item> \<open>heap\<close>: the memory holding the objects, by address;
  \<^item> \<open>pin_mode\<close>, \<open>pin_out\<close>: the mode and the output latch of every pin;
  \<^item> \<open>vector\<close>: for every external interrupt number, the trigger mode with which the
    routine \<^verbatim>\<open>isr\<close> is attached (\<open>None\<close>: detached);
  \<^item> \<open>iflag\<close>: the global interrupt enable bit of the status register;
  \<^item> \<open>signal\<close>, \<open>clock\<close>: the electrical level (\<open>True\<close> for HIGH) that the
    \<open>k\<close>-th call of \<^verbatim>\<open>digitalRead\<close> finds on each pin, and the number of calls made so far;
  \<^item> \<open>digitalPinToInterrupt\<close>: the board's macro of that name, a parameter of the model;
  \<^item> \<open>trace\<close>: the event log.
\<close>

record system =
  intHandle :: "addr option"
  heap :: "addr \<Rightarrow> RotEncoder"
  pin_mode :: "pin \<Rightarrow> pinmode"
  pin_out :: "pin \<Rightarrow> bool"
  vector :: "int \<Rightarrow> trigger option"
  iflag :: bool
  signal :: "nat \<Rightarrow> pin \<Rightarrow> bool"
  clock :: nat
  digitalPinToInterrupt :: "pin \<Rightarrow> int"
  trace :: "event list"

section \<open>Platform services\<close>

text \<open>
  The Arduino and AVR services that the class calls, by their documented effect on the
  state above. \<^verbatim>\<open>digitalRead\<close> returns the level that the pin shows at this read and
  advances the clock; the class reads a pin only inside the handler, after it has set
  both pins to input with pull-up. \<^verbatim>\<open>LOW\<close> is \<open>False\<close>.
\<close>

definition emit :: "event \<Rightarrow> system \<Rightarrow> system" where
  "emit e s = s\<lparr>trace := trace s @ [e]\<rparr>"

definition pinMode :: "pin \<Rightarrow> pinmode \<Rightarrow> system \<Rightarrow> system" where
  "pinMode p m s = emit (PinMode p m) (s\<lparr>pin_mode := (pin_mode s)(p := m)\<rparr>)"

definition digitalWrite :: "pin \<Rightarrow> bool \<Rightarrow> system \<Rightarrow> system" where
  "digitalWrite p v s = emit (DigitalWrite p v) (s\<lparr>pin_out := (pin_out s)(p := v)\<rparr>)"

definition digitalRead :: "pin \<Rightarrow> system \<Rightarrow> bool \<times> system" where
  "digitalRead p s = (signal s (clock s) p, s\<lparr>clock := Suc (clock s)\<rparr>)"

definition attachInterrupt :: "int \<Rightarrow> trigger \<Rightarrow> system \<Rightarrow> system" where
  "attachInterrupt n m s = emit (AttachInterrupt n m) (s\<lparr>vector := (vector s)(n := Some m)\<rparr>)"

definition detachInterrupt :: "int \<Rightarrow> system \<Rightarrow> system" where
  "detachInterrupt n s = emit (DetachInterrupt n) (s\<lparr>vector := (vector s)(n := None)\<rparr>)"

definition cli :: "system \<Rightarrow> system" where
  "cli s = s\<lparr>iflag := False\<rparr>"

definition sei :: "system \<Rightarrow> system" where
  "sei s = s\<lparr>iflag := True\<rparr>"

text \<open>
  \<^verbatim>\<open>ATOMIC_BLOCK(ATOMIC_RESTORESTATE)\<close>: save the status register, disable the interrupts,
  run the body, restore the saved status register.
\<close>

definition ATOMIC_BLOCK :: "(system \<Rightarrow> 'a \<times> system) \<Rightarrow> system \<Rightarrow> 'a \<times> system" where
  "ATOMIC_BLOCK body s =
     (let sreg_save = iflag s;
          (r, s') = body (cli s)
      in (r, s'\<lparr>iflag := sreg_save\<rparr>))"

section \<open>The class RotEncoder\<close>

text \<open>A store to the data members of the object at \<open>this\<close>.\<close>

definition modify :: "addr \<Rightarrow> (RotEncoder \<Rightarrow> RotEncoder) \<Rightarrow> system \<Rightarrow> system" where
  "modify this f s = s\<lparr>heap := (heap s)(this := f (heap s this))\<rparr>"

definition store_intHandle :: "addr option \<Rightarrow> system \<Rightarrow> system" where
  "store_intHandle h s = emit (Store_intHandle h) (s\<lparr>intHandle := h\<rparr>)"

text \<open>The read \<^verbatim>\<open>pos = position\<close> of the volatile counter (RotEncoder.cpp, line 69).\<close>

definition read_position :: "addr \<Rightarrow> system \<Rightarrow> long \<times> system" where
  "read_position this s = (position (heap s this), emit (Read_position this (iflag s)) s)"

subsection \<open>The pin interface (RotEncoder.h, lines 49 to 63 and 85 to 86)\<close>

definition getPinA :: "addr \<Rightarrow> system \<Rightarrow> pin" where
  "getPinA this s = (case vptr (heap s this) of RotEncoder_class \<Rightarrow> 2 | RotEncoderPins a b \<Rightarrow> a)"

definition getPinB :: "addr \<Rightarrow> system \<Rightarrow> pin" where
  "getPinB this s = (case vptr (heap s this) of RotEncoder_class \<Rightarrow> 3 | RotEncoderPins a b \<Rightarrow> b)"

definition rdPinA :: "addr \<Rightarrow> system \<Rightarrow> bool \<times> system" where
  "rdPinA this s = (let (v, s') = digitalRead (getPinA this s) s in (\<not> v, s'))"

definition rdPinB :: "addr \<Rightarrow> system \<Rightarrow> bool \<times> system" where
  "rdPinB this s = (let (v, s') = digitalRead (getPinB this s) s in (\<not> v, s'))"

definition enPinA :: "addr \<Rightarrow> system \<Rightarrow> system" where
  "enPinA this s = pinMode (getPinA this s) INPUT_PULLUP s"

definition enPinB :: "addr \<Rightarrow> system \<Rightarrow> system" where
  "enPinB this s = pinMode (getPinB this s) INPUT_PULLUP s"

definition diPinA :: "addr \<Rightarrow> system \<Rightarrow> system" where
  "diPinA this s =
     (let s1 = digitalWrite (getPinA this s) False s
      in pinMode (getPinA this s1) OUTPUT s1)"

definition diPinB :: "addr \<Rightarrow> system \<Rightarrow> system" where
  "diPinB this s =
     (let s1 = digitalWrite (getPinB this s) False s
      in pinMode (getPinB this s1) OUTPUT s1)"

subsection \<open>begin, end, getPosition (RotEncoder.cpp, lines 33 to 72)\<close>

definition RotEncoder_begin :: "addr \<Rightarrow> system \<Rightarrow> bool \<times> system" where
  "RotEncoder_begin this s =
     (if intHandle s = None then
        (let (u, s1) = ATOMIC_BLOCK (\<lambda>t. ((), store_intHandle (Some this) t)) s;
             s2 = enPinA this s1;
             s3 = enPinB this s2;
             s4 = attachInterrupt (digitalPinToInterrupt s3 (getPinA this s3)) CHANGE s3;
             s5 = attachInterrupt (digitalPinToInterrupt s4 (getPinB this s4)) CHANGE s4
         in (True, s5))
      else (False, s))"

definition RotEncoder_end :: "addr \<Rightarrow> system \<Rightarrow> bool \<times> system" where
  "RotEncoder_end this s =
     (if intHandle s = Some this then
        (let (u, s1) = ATOMIC_BLOCK (\<lambda>t. ((), store_intHandle None t)) s;
             s2 = detachInterrupt (digitalPinToInterrupt s1 (getPinA this s1)) s1;
             s3 = detachInterrupt (digitalPinToInterrupt s2 (getPinB this s2)) s2
         in (True, s3))
      else (False, s))"

definition RotEncoder_getPosition :: "addr \<Rightarrow> system \<Rightarrow> long \<times> system" where
  "RotEncoder_getPosition this s = ATOMIC_BLOCK (read_position this) s"

subsection \<open>The interrupt handler (RotEncoder.cpp, lines 74 to 101)\<close>

text \<open>
  The re-sampling loop of lines 77 to 79. The condition
  \<^verbatim>\<open>(inA!=rdPinA())||(inB!=rdPinB())\<close> reads pin A first and reads pin B only when the
  first disjunct is false. The loop has no bound: on an input that never settles it does
  not return, which is the value \<open>None\<close>.
\<close>

partial_function (option) intr_loop :: "addr \<Rightarrow> system \<Rightarrow> system option" where
  "intr_loop this s =
     (let (a, s1) = rdPinA this s;
          s2 = modify this (\<lambda>r. r\<lparr>inA := a\<rparr>) s1;
          (b, s3) = rdPinB this s2;
          s4 = modify this (\<lambda>r. r\<lparr>inB := b\<rparr>) s3;
          (a', s5) = rdPinA this s4
      in if inA (heap s5 this) \<noteq> a' then intr_loop this s5
         else (let (b', s6) = rdPinB this s5
               in if inB (heap s6 this) \<noteq> b' then intr_loop this s6
                  else Some s6))"

text \<open>The classification of the stable pair, lines 82 to 99.\<close>

definition intr_switch :: "addr \<Rightarrow> system \<Rightarrow> system" where
  "intr_switch this s =
     (if inA (heap s this) then
        (if inB (heap s this) then
           modify this (\<lambda>r. r\<lparr>cntflg := True\<rparr>) s
         else
           (let s1 = diPinA this s;
                s2 = (if \<not> lrflg (heap s1 this) \<and> cntflg (heap s1 this)
                      then modify this (\<lambda>r. r\<lparr>position := position r + 1\<rparr>) s1 else s1);
                s3 = modify this (\<lambda>r. r\<lparr>lrflg := True\<rparr>) s2
            in modify this (\<lambda>r. r\<lparr>cntflg := False\<rparr>) s3))
      else
        (if inB (heap s this) then
           (let s1 = diPinB this s;
                s2 = (if lrflg (heap s1 this) \<and> cntflg (heap s1 this)
                      then modify this (\<lambda>r. r\<lparr>position := position r - 1\<rparr>) s1 else s1);
                s3 = modify this (\<lambda>r. r\<lparr>lrflg := False\<rparr>) s2
            in modify this (\<lambda>r. r\<lparr>cntflg := False\<rparr>) s3)
         else s))"

definition RotEncoder_intr :: "addr \<Rightarrow> system \<Rightarrow> system option" where
  "RotEncoder_intr this s =
     (let s1 = cli s;
          s2 = enPinA this s1;
          s3 = enPinB this s2
      in case intr_loop this s3 of
           None \<Rightarrow> None
         | Some s4 \<Rightarrow> Some (sei (intr_switch this s4)))"

text \<open>The interrupt service routine (RotEncoder.h, line 78).\<close>

definition isr :: "system \<Rightarrow> system option" where
  "isr s = (case intHandle s of None \<Rightarrow> Some s | Some h \<Rightarrow> RotEncoder_intr h s)"

subsection \<open>Construction and destruction\<close>

text \<open>
  The constructor is the implicit one: it installs the dynamic type and runs the default
  member initialisers of lines 72 and 73. The members \<^verbatim>\<open>lrflg\<close>, \<^verbatim>\<open>inA\<close> and \<^verbatim>\<open>inB\<close> have no
  initialiser and keep whatever the memory at that address held.
\<close>

definition RotEncoder_ctor :: "dyntype \<Rightarrow> addr \<Rightarrow> system \<Rightarrow> system" where
  "RotEncoder_ctor ty this s =
     modify this (\<lambda>r. r\<lparr>vptr := ty, position := 0, cntflg := False\<rparr>) s"

text \<open>
  The destructor \<^verbatim>\<open>virtual ~RotEncoder() { end(); }\<close> (RotEncoder.h, line 69). While the
  destructor of the base class runs, the dynamic type of the object is \<^verbatim>\<open>RotEncoder\<close>, so
  the virtual calls inside \<^verbatim>\<open>end()\<close> resolve to the base class. The result of \<^verbatim>\<open>end()\<close> is
  dropped.
\<close>

definition RotEncoder_dtor :: "addr \<Rightarrow> system \<Rightarrow> system" where
  "RotEncoder_dtor this s =
     (let s1 = modify this (\<lambda>r. r\<lparr>vptr := RotEncoder_class\<rparr>) s;
          (u, s2) = RotEncoder_end this s1
      in s2)"

section \<open>Auxiliary notions\<close>

text \<open>
  The state in which the handler starts to sample: interrupts disabled, both pull-ups on
  (line 75 and line 76).
\<close>

definition prepared :: "addr \<Rightarrow> system \<Rightarrow> system" where
  "prepared this s = enPinB this (enPinA this (cli s))"

text \<open>
  A round of the loop that starts at tick \<open>t\<close> reads pin A at \<open>t\<close> and \<open>t + 2\<close> and pin B
  at \<open>t + 1\<close> and \<open>t + 3\<close>. The round \<open>agree\<close>s when the two reads of each pin are equal;
  \<open>sampled\<close> is the state in which such a round leaves the loop.
\<close>

definition agree :: "addr \<Rightarrow> system \<Rightarrow> nat \<Rightarrow> bool" where
  "agree this s t \<longleftrightarrow>
     signal s (t + 2) (getPinA this s) = signal s t (getPinA this s) \<and>
     signal s (t + 3) (getPinB this s) = signal s (t + 1) (getPinB this s)"

definition sampled :: "addr \<Rightarrow> system \<Rightarrow> nat \<Rightarrow> system" where
  "sampled this s t =
     s\<lparr>heap := (heap s)(this := (heap s this)
          \<lparr>inA := \<not> signal s t (getPinA this s), inB := \<not> signal s (t + 1) (getPinB this s)\<rparr>),
       clock := t + 4\<rparr>"

definition handled :: "addr \<Rightarrow> system \<Rightarrow> nat \<Rightarrow> system" where
  "handled this s t = sei (intr_switch this (sampled this (prepared this s) t))"

text \<open>
  The data members after the handler has classified the stable pair \<open>(a, b)\<close>: a closed
  form of lines 82 to 99, used in the proofs only; lemma \<open>heap_handled\<close> shows that it is
  what the handler computes.
\<close>

definition decoded :: "bool \<Rightarrow> bool \<Rightarrow> RotEncoder \<Rightarrow> RotEncoder" where
  "decoded a b r =
     r\<lparr>inA := a, inB := b,
       position := (if a \<and> \<not> b \<and> \<not> lrflg r \<and> cntflg r then position r + 1
                    else if \<not> a \<and> b \<and> lrflg r \<and> cntflg r then position r - 1
                    else position r),
       lrflg := (if a \<noteq> b then a else lrflg r),
       cntflg := (if a \<and> b then True else if a \<noteq> b then False else cntflg r)\<rparr>"

subsection \<open>A driver for consecutive invocations of the handler\<close>

text \<open>
  What a test reads from the object after an invocation: the stable pair the handler
  sampled and the position counter.
\<close>

definition observe :: "addr \<Rightarrow> system \<Rightarrow> bool \<times> bool \<times> long" where
  "observe this s = (inA (heap s this), inB (heap s this), position (heap s this))"

text \<open>
  \<open>invoke_seq this n s\<close> invokes the handler \<open>n\<close> times in a row and lists what is
  observed after each invocation; \<open>None\<close> when an invocation does not return.
\<close>

fun invoke_seq :: "addr \<Rightarrow> nat \<Rightarrow> system \<Rightarrow> (bool \<times> bool \<times> long) list option" where
  "invoke_seq this 0 s = Some []"
| "invoke_seq this (Suc n) s =
     (case RotEncoder_intr this s of
        None \<Rightarrow> None
      | Some s' \<Rightarrow>
          (case invoke_seq this n s' of
             None \<Rightarrow> None
           | Some obs \<Rightarrow> Some (observe this s' # obs)))"

subsection \<open>Concrete systems\<close>

text \<open>The macro \<^verbatim>\<open>digitalPinToInterrupt\<close> of the Arduino Nano (ATmega328P).\<close>

definition nano_interrupt :: "pin \<Rightarrow> int" where
  "nano_interrupt p = (if p = 2 then 0 else if p = 3 then 1 else - 1)"

text \<open>
  An input on which the contacts show each pair of the list \<open>xs\<close> for four reads, and are
  open afterwards. A closed contact pulls its pin low.
\<close>

definition levels :: "(bool \<times> bool) list \<Rightarrow> nat \<Rightarrow> pin \<Rightarrow> bool" where
  "levels xs k p =
     (if k div 4 < length xs then
        (if p = 2 then \<not> fst (xs ! (k div 4))
         else if p = 3 then \<not> snd (xs ! (k div 4))
         else True)
      else True)"

text \<open>An input on which contact A closes at tick 2, in the middle of a round.\<close>

definition closing :: "nat \<Rightarrow> pin \<Rightarrow> bool" where
  "closing k p = (if p = 2 then k < 2 else True)"

text \<open>The system at power-on, before any object exists, on a given input.\<close>

definition power_on :: "(nat \<Rightarrow> pin \<Rightarrow> bool) \<Rightarrow> system" where
  "power_on sig =
     \<lparr>intHandle = None,
      heap = (\<lambda>a. \<lparr>vptr = RotEncoder_class, position = 0, cntflg = False, lrflg = False,
                    inA = False, inB = False\<rparr>),
      pin_mode = (\<lambda>p. INPUT),
      pin_out = (\<lambda>p. False),
      vector = (\<lambda>n. None),
      iflag = True,
      signal = sig,
      clock = 0,
      digitalPinToInterrupt = nano_interrupt,
      trace = []\<rparr>"

text \<open>An encoder on the default pins, constructed at address 0 and started.\<close>

definition started :: "(nat \<Rightarrow> pin \<Rightarrow> bool) \<Rightarrow> system" where
  "started sig = snd (RotEncoder_begin 0 (RotEncoder_ctor RotEncoder_class 0 (power_on sig)))"

text \<open>
  A memory whose cell at address 0 holds leftovers (direction flag set, count pending,
  position 7) before an object is constructed there; the input shows \<open>(0,1)\<close>.
\<close>

definition stale :: system where
  "stale = modify 0 (\<lambda>r. r\<lparr>lrflg := True, cntflg := True, position := 7\<rparr>) (power_on (levels [(False, True)]))"

text \<open>
  A started encoder after two invocations of the handler whose rounds began at the ticks 0
  and 4, that is, whose input was stable during both.
\<close>

definition twice :: "(nat \<Rightarrow> pin \<Rightarrow> bool) \<Rightarrow> system" where
  "twice sig = handled 0 (handled 0 (started sig) 0) 4"

section \<open>Properties of the operations\<close>

lemmas prim_defs = emit_def pinMode_def digitalWrite_def digitalRead_def attachInterrupt_def
  detachInterrupt_def cli_def sei_def ATOMIC_BLOCK_def modify_def store_intHandle_def
  getPinA_def getPinB_def rdPinA_def rdPinB_def enPinA_def enPinB_def diPinA_def diPinB_def

subsection \<open>begin, end, getPosition\<close>

lemma getPosition_eq:
  "RotEncoder_getPosition this s =
     (position (heap s this), s\<lparr>trace := trace s @ [Read_position this False]\<rparr>)"
  by (simp add: RotEncoder_getPosition_def ATOMIC_BLOCK_def read_position_def cli_def emit_def)

lemma begin_eq:
  "RotEncoder_begin this s =
     (if intHandle s = None then
        (True, s\<lparr>intHandle := Some this,
                 pin_mode := (pin_mode s)(getPinA this s := INPUT_PULLUP, getPinB this s := INPUT_PULLUP),
                 vector := (vector s)(digitalPinToInterrupt s (getPinA this s) := Some CHANGE,
                                      digitalPinToInterrupt s (getPinB this s) := Some CHANGE),
                 trace := trace s @ [Store_intHandle (Some this),
                                     PinMode (getPinA this s) INPUT_PULLUP,
                                     PinMode (getPinB this s) INPUT_PULLUP,
                                     AttachInterrupt (digitalPinToInterrupt s (getPinA this s)) CHANGE,
                                     AttachInterrupt (digitalPinToInterrupt s (getPinB this s)) CHANGE]\<rparr>)
      else (False, s))"
  by (simp add: RotEncoder_begin_def prim_defs)

lemma end_eq:
  "RotEncoder_end this s =
     (if intHandle s = Some this then
        (True, s\<lparr>intHandle := None,
                 vector := (vector s)(digitalPinToInterrupt s (getPinA this s) := None,
                                      digitalPinToInterrupt s (getPinB this s) := None),
                 trace := trace s @ [Store_intHandle None,
                                     DetachInterrupt (digitalPinToInterrupt s (getPinA this s)),
                                     DetachInterrupt (digitalPinToInterrupt s (getPinB this s))]\<rparr>)
      else (False, s))"
  by (simp add: RotEncoder_end_def prim_defs)

lemma heap_begin [simp]: "heap (snd (RotEncoder_begin this s)) = heap s"
  by (simp add: begin_eq)

lemma heap_end [simp]: "heap (snd (RotEncoder_end this s)) = heap s"
  by (simp add: end_eq)

lemma dtor_eq:
  "RotEncoder_dtor this s = snd (RotEncoder_end this (modify this (\<lambda>r. r\<lparr>vptr := RotEncoder_class\<rparr>) s))"
  by (simp add: RotEncoder_dtor_def Let_def split_beta)

subsection \<open>The re-sampling loop\<close>

lemma prepared_simps [simp]:
  "heap (prepared this s) = heap s"
  "signal (prepared this s) = signal s"
  "clock (prepared this s) = clock s"
  "getPinA this (prepared this s) = getPinA this s"
  "getPinB this (prepared this s) = getPinB this s"
  by (simp_all add: prepared_def prim_defs)

lemma agree_prepared [simp]: "agree this (prepared this s) t = agree this s t"
  by (simp add: agree_def)

lemma body_unfold:
  "(let (a, s1) = rdPinA this s;
        s2 = modify this (\<lambda>r. r\<lparr>inA := a\<rparr>) s1;
        (b, s3) = rdPinB this s2;
        s4 = modify this (\<lambda>r. r\<lparr>inB := b\<rparr>) s3;
        (a', s5) = rdPinA this s4
    in if inA (heap s5 this) \<noteq> a' then f this s5
       else (let (b', s6) = rdPinB this s5
             in if inB (heap s6 this) \<noteq> b' then f this s6
                else Some s6)) =
     (if agree this s (clock s) then Some (sampled this s (clock s))
      else if signal s (clock s + 2) (getPinA this s) \<noteq> signal s (clock s) (getPinA this s)
      then f this (sampled this s (clock s) \<lparr>clock := clock s + 3\<rparr>)
      else f this (sampled this s (clock s)))"
  by (simp add: prim_defs Let_def sampled_def agree_def numeral_eq_Suc)

lemma loop_unfold:
  "intr_loop this s =
     (if agree this s (clock s) then Some (sampled this s (clock s))
      else if signal s (clock s + 2) (getPinA this s) \<noteq> signal s (clock s) (getPinA this s)
      then intr_loop this (sampled this s (clock s) \<lparr>clock := clock s + 3\<rparr>)
      else intr_loop this (sampled this s (clock s)))"
  by (subst intr_loop.simps) (rule body_unfold[where f=intr_loop])

lemma sampled_sampled [simp]:
  "sampled this (sampled this s t) u = sampled this s u"
  "sampled this (sampled this s t\<lparr>clock := c\<rparr>) u = sampled this s u"
  by (simp_all add: sampled_def getPinA_def getPinB_def)

lemma agree_sampled [simp]:
  "agree this (sampled this s t) u = agree this s u"
  "agree this (sampled this s t\<lparr>clock := c\<rparr>) u = agree this s u"
  by (simp_all add: sampled_def agree_def getPinA_def getPinB_def)

lemma clock_sampled [simp]: "clock (sampled this s t) = t + 4"
  by (simp add: sampled_def)

lemma loop_exit:
  assumes "intr_loop this s = Some s'"
  shows "\<exists>t\<ge>clock s. agree this s t \<and> s' = sampled this s t"
  using assms
proof (induction this s s' rule: intr_loop.raw_induct[rotated 1, consumes 1, case_names step])
  case (step f this s s')
  note body = step.hyps[unfolded body_unfold[where f=f]]
  show ?case
  proof (cases "agree this s (clock s)")
    case True
    with body have "s' = sampled this s (clock s)" by simp
    with True show ?thesis by blast
  next
    case False
    show ?thesis
    proof (cases "signal s (clock s + 2) (getPinA this s) \<noteq> signal s (clock s) (getPinA this s)")
      case True
      with False body have "f this (sampled this s (clock s) \<lparr>clock := clock s + 3\<rparr>) = Some s'"
        by simp
      from step.IH[OF this] obtain t where "clock s + 3 \<le> t" "agree this s t" "s' = sampled this s t"
        by auto
      then show ?thesis by (intro exI[of _ t]) simp
    next
      case A: False
      with \<open>\<not> agree this s (clock s)\<close> body have "f this (sampled this s (clock s)) = Some s'"
        by simp
      from step.IH[OF this] obtain t where "clock s + 4 \<le> t" "agree this s t" "s' = sampled this s t"
        by auto
      then show ?thesis by (intro exI[of _ t]) simp
    qed
  qed
qed

lemma loop_terminates:
  assumes "\<forall>k\<ge>N. signal s k (getPinA this s) = a \<and> signal s k (getPinB this s) = b"
  shows "\<exists>s'. intr_loop this s = Some s'"
  using assms
proof (induction "N - clock s" arbitrary: s rule: less_induct)
  case less
  show ?case
  proof (cases "agree this s (clock s)")
    case True
    then show ?thesis by (subst loop_unfold) simp
  next
    case False
    have lt: "clock s < N"
    proof (rule ccontr)
      assume "\<not> clock s < N"
      then have "N \<le> clock s" by simp
      with less.prems have "agree this s (clock s)"
        by (simp add: agree_def)
      with False show False by simp
    qed
    let ?s1 = "sampled this s (clock s) \<lparr>clock := clock s + 3\<rparr>"
    let ?s2 = "sampled this s (clock s)"
    have p1: "getPinA this ?s1 = getPinA this s" "getPinB this ?s1 = getPinB this s"
             "getPinA this ?s2 = getPinA this s" "getPinB this ?s2 = getPinB this s"
      by (simp_all add: sampled_def getPinA_def getPinB_def)
    have g1: "signal ?s1 = signal s" "signal ?s2 = signal s"
      by (simp_all add: sampled_def)
    have r1: "\<exists>s'. intr_loop this ?s1 = Some s'"
      by (rule less.hyps) (use lt less.prems in \<open>simp_all add: p1 g1\<close>)
    have r2: "\<exists>s'. intr_loop this ?s2 = Some s'"
      by (rule less.hyps) (use lt less.prems in \<open>simp_all add: p1 g1\<close>)
    from False r1 r2 show ?thesis
      by (subst loop_unfold) simp
  qed
qed


subsection \<open>The handler\<close>

lemma intr_eq:
  "RotEncoder_intr this s =
     map_option (\<lambda>s4. sei (intr_switch this s4)) (intr_loop this (prepared this s))"
  by (simp add: RotEncoder_intr_def prepared_def Let_def map_option_case)

lemma intr_stable:
  "agree this s (clock s) \<Longrightarrow> RotEncoder_intr this s = Some (handled this s (clock s))"
  by (simp add: intr_eq handled_def) (subst loop_unfold, simp)

lemma intr_cases:
  assumes "RotEncoder_intr this s = Some s'"
  shows "\<exists>t\<ge>clock s. agree this s t \<and> s' = handled this s t"
proof -
  from assms obtain s4 where l: "intr_loop this (prepared this s) = Some s4"
    and s': "s' = sei (intr_switch this s4)"
    by (auto simp: intr_eq)
  from loop_exit[OF l] obtain t where "clock s \<le> t" "agree this s t" "s4 = sampled this (prepared this s) t"
    by auto
  with s' show ?thesis
    by (auto simp: handled_def)
qed

lemma intr_terminates:
  assumes "\<forall>k\<ge>N. signal s k (getPinA this s) = a \<and> signal s k (getPinB this s) = b"
  shows "\<exists>s'. RotEncoder_intr this s = Some s'"
proof -
  have "\<exists>s4. intr_loop this (prepared this s) = Some s4"
    by (rule loop_terminates[where N=N and a=a and b=b]) (use assms in simp)
  then show ?thesis by (auto simp: intr_eq)
qed

lemma heap_handled:
  "heap (handled this s t) =
     (heap s)(this := decoded (\<not> signal s t (getPinA this s)) (\<not> signal s (t + 1) (getPinB this s)) (heap s this))"
  by (auto simp: handled_def sampled_def intr_switch_def decoded_def
        diPinA_def diPinB_def digitalWrite_def pinMode_def emit_def modify_def sei_def Let_def)

lemma handled_simps [simp]:
  "intHandle (handled this s t) = intHandle s"
  "signal (handled this s t) = signal s"
  "clock (handled this s t) = t + 4"
  "iflag (handled this s t) = True"
  "vector (handled this s t) = vector s"
  "digitalPinToInterrupt (handled this s t) = digitalPinToInterrupt s"
  by (auto simp: handled_def prepared_def sampled_def intr_switch_def
        diPinA_def diPinB_def digitalWrite_def pinMode_def emit_def modify_def sei_def cli_def
        enPinA_def enPinB_def Let_def)

lemma intr_step_this:
  assumes "RotEncoder_intr this s = Some s'"
  shows "heap s' this = decoded (inA (heap s' this)) (inB (heap s' this)) (heap s this)"
proof -
  from intr_cases[OF assms] obtain t where s': "s' = handled this s t" by auto
  show ?thesis
    unfolding s' heap_handled by (simp add: decoded_def)
qed

lemma intr_step_other:
  assumes "RotEncoder_intr this s = Some s'" and "x \<noteq> this"
  shows "heap s' x = heap s x"
proof -
  from intr_cases[OF assms(1)] obtain t where s': "s' = handled this s t" by auto
  show ?thesis
    unfolding s' heap_handled using assms(2) by simp
qed

subsection \<open>Facts for evaluating concrete runs\<close>

lemma getPin_handled [simp]:
  "getPinA this (handled that s t) = getPinA this s"
  "getPinB this (handled that s t) = getPinB this s"
  by (auto simp: getPinA_def getPinB_def heap_handled decoded_def)

lemma agree_handled [simp]: "agree this (handled that s t) u = agree this s u"
  by (simp add: agree_def)

lemma getPin_started [simp]: "getPinA 0 (started sig) = 2" "getPinB 0 (started sig) = 3"
  by (simp_all add: started_def getPinA_def getPinB_def RotEncoder_ctor_def modify_def)

lemma started_simps [simp]:
  "signal (started sig) = sig"
  "clock (started sig) = 0"
  "heap (started sig) 0 = \<lparr>vptr = RotEncoder_class, position = 0, cntflg = False, lrflg = False,
                    inA = False, inB = False\<rparr>"
  "intHandle (started sig) = Some 0"
  by (simp_all add: started_def begin_eq RotEncoder_ctor_def modify_def power_on_def)

lemma observe_handled:
  "observe this (handled this s t) =
     (let r = decoded (\<not> signal s t (getPinA this s)) (\<not> signal s (t + 1) (getPinB this s)) (heap s this)
      in (inA r, inB r, position r))"
  by (simp add: observe_def heap_handled Let_def)

lemma invoke_seq_numeral:
  "invoke_seq this (numeral k) s =
     (case RotEncoder_intr this s of
        None \<Rightarrow> None
      | Some s' \<Rightarrow>
          (case invoke_seq this (pred_numeral k) s' of
             None \<Rightarrow> None
           | Some obs \<Rightarrow> Some (observe this s' # obs)))"
  by (simp add: numeral_eq_Suc)

subsection \<open>Consecutive invocations\<close>

lemma invoke_seq_numeral_Some:
  assumes "invoke_seq this (numeral k) s = Some (x # xs)"
  obtains s' where "RotEncoder_intr this s = Some s'" "observe this s' = x"
    "invoke_seq this (pred_numeral k) s' = Some xs"
  using assms by (auto simp: invoke_seq_numeral split: option.splits)

lemma invoke_seq_Suc_Some:
  assumes "invoke_seq this (Suc n) s = Some (x # xs)"
  obtains s' where "RotEncoder_intr this s = Some s'" "observe this s' = x"
    "invoke_seq this n s' = Some xs"
  using assms by (auto split: option.splits)

lemma intr_observe:
  assumes "RotEncoder_intr this s = Some s'" and "observe this s' = (a, b, p)"
  shows "heap s' this = decoded a b (heap s this)" and "p = position (decoded a b (heap s this))"
proof -
  from assms(2) have ab: "inA (heap s' this) = a" "inB (heap s' this) = b" "position (heap s' this) = p"
    by (simp_all add: observe_def)
  from intr_step_this[OF assms(1)]
  have "heap s' this = decoded (inA (heap s' this)) (inB (heap s' this)) (heap s this)" .
  then show "heap s' this = decoded a b (heap s this)" by (simp add: ab)
  with ab show "p = position (decoded a b (heap s this))" by simp
qed

lemma sint_succ32: "sint (p :: long) \<noteq> 2 ^ 31 - 1 \<Longrightarrow> sint (p + 1) = sint p + 1"
proof -
  assume a: "sint p \<noteq> 2 ^ 31 - 1"
  have "sint p < 2 ^ 31" "- (2 ^ 31) \<le> sint p"
    using sint_lt[of p] sint_ge[of p] by simp_all
  with a have "- (2 ^ 31) \<le> sint p + 1" "sint p + 1 < 2 ^ 31" by simp_all
  then have "signed_take_bit 31 (sint p + 1) = sint p + 1"
    by (simp add: signed_take_bit_int_eq_self)
  then show ?thesis by (simp add: sint_word_ariths)
qed

lemma sint_pred32: "sint (p :: long) \<noteq> - (2 ^ 31) \<Longrightarrow> sint (p - 1) = sint p - 1"
proof -
  assume a: "sint p \<noteq> - (2 ^ 31)"
  have "sint p < 2 ^ 31" "- (2 ^ 31) \<le> sint p"
    using sint_lt[of p] sint_ge[of p] by simp_all
  with a have "- (2 ^ 31) \<le> sint p - 1" "sint p - 1 < 2 ^ 31" by simp_all
  then have "signed_take_bit 31 (sint p - 1) = sint p - 1"
    by (simp add: signed_take_bit_int_eq_self)
  then show ?thesis by (simp add: sint_word_ariths)
qed

lemma cycle_positions:
  assumes "invoke_seq this 5 s = Some [(a1, b1, p1), (a2, b2, p2), (a3, b3, p3), (a4, b4, p4), (a5, b5, p5)]"
  shows "p5 = position (decoded a5 b5 (decoded a4 b4 (decoded a3 b3 (decoded a2 b2 (decoded a1 b1 (heap s this))))))"
proof -
  from assms obtain s1 where 1: "RotEncoder_intr this s = Some s1" "observe this s1 = (a1, b1, p1)"
    and r1: "invoke_seq this 4 s1 = Some [(a2, b2, p2), (a3, b3, p3), (a4, b4, p4), (a5, b5, p5)]"
    by (elim invoke_seq_numeral_Some) simp
  from r1 obtain s2 where 2: "RotEncoder_intr this s1 = Some s2" "observe this s2 = (a2, b2, p2)"
    and r2: "invoke_seq this 3 s2 = Some [(a3, b3, p3), (a4, b4, p4), (a5, b5, p5)]"
    by (elim invoke_seq_numeral_Some) simp
  from r2 obtain s3 where 3: "RotEncoder_intr this s2 = Some s3" "observe this s3 = (a3, b3, p3)"
    and r3: "invoke_seq this 2 s3 = Some [(a4, b4, p4), (a5, b5, p5)]"
    by (elim invoke_seq_numeral_Some) simp
  from r3 obtain s4 where 4: "RotEncoder_intr this s3 = Some s4" "observe this s4 = (a4, b4, p4)"
    and r4: "invoke_seq this (Suc 0) s4 = Some [(a5, b5, p5)]"
    by (elim invoke_seq_numeral_Some) simp
  from r4 obtain s5 where 5: "RotEncoder_intr this s4 = Some s5" "observe this s5 = (a5, b5, p5)"
    by (elim invoke_seq_Suc_Some)
  show ?thesis
    using intr_observe[OF 1] intr_observe[OF 2] intr_observe[OF 3] intr_observe[OF 4] intr_observe[OF 5]
    by simp
qed

lemma pair_positions:
  assumes "invoke_seq this 2 s = Some [(a1, b1, p1), (a2, b2, p2)]"
  shows "p1 = position (decoded a1 b1 (heap s this))"
    and "p2 = position (decoded a2 b2 (decoded a1 b1 (heap s this)))"
proof -
  from assms obtain s1 where 1: "RotEncoder_intr this s = Some s1" "observe this s1 = (a1, b1, p1)"
    and r1: "invoke_seq this (Suc 0) s1 = Some [(a2, b2, p2)]"
    by (elim invoke_seq_numeral_Some) simp
  from r1 obtain s2 where 2: "RotEncoder_intr this s1 = Some s2" "observe this s2 = (a2, b2, p2)"
    by (elim invoke_seq_Suc_Some)
  show "p1 = position (decoded a1 b1 (heap s this))"
    and "p2 = position (decoded a2 b2 (decoded a1 b1 (heap s this)))"
    using intr_observe[OF 1] intr_observe[OF 2] by simp_all
qed

lemma position_decoded:
  "position (decoded a b r) = position r \<or> position (decoded a b r) = position r + 1
     \<or> position (decoded a b r) = position r - 1"
  by (simp add: decoded_def)

lemma position_decoded_idle:
  "\<not> cntflg r \<Longrightarrow> position (decoded a b r) = position r"
  by (simp add: decoded_def)

lemma sint_step32:
  assumes "q = p \<or> q = p + 1 \<or> q = p - 1"
  shows "\<bar>sint (q - p :: long)\<bar> \<le> 1"
  using assms by auto

lemma sint_step32_signed:
  assumes "q = p \<or> q = p + 1 \<or> q = p - 1"
    and "sint p \<noteq> 2 ^ 31 - 1" and "sint (p :: long) \<noteq> - (2 ^ 31)"
  shows "\<bar>sint q - sint p\<bar> \<le> 1"
  using assms sint_succ32[of p] sint_pred32[of p] by auto

lemma triple_positions:
  assumes "invoke_seq this 3 s = Some [(a1, b1, p1), (a2, b2, p2), (a3, b3, p3)]"
  shows "p1 = position (decoded a1 b1 (heap s this))"
    and "p2 = position (decoded a2 b2 (decoded a1 b1 (heap s this)))"
    and "p3 = position (decoded a3 b3 (decoded a2 b2 (decoded a1 b1 (heap s this))))"
proof -
  from assms obtain s1 where 1: "RotEncoder_intr this s = Some s1" "observe this s1 = (a1, b1, p1)"
    and r1: "invoke_seq this 2 s1 = Some [(a2, b2, p2), (a3, b3, p3)]"
    by (elim invoke_seq_numeral_Some) simp
  from intr_observe[OF 1] pair_positions[OF r1]
  show "p1 = position (decoded a1 b1 (heap s this))"
    and "p2 = position (decoded a2 b2 (decoded a1 b1 (heap s this)))"
    and "p3 = position (decoded a3 b3 (decoded a2 b2 (decoded a1 b1 (heap s this))))"
    by simp_all
qed

subsection \<open>Concrete runs\<close>

lemma sampled_frame [simp]:
  "signal (sampled this s t) = signal s"
  "getPinA x (sampled this s t) = getPinA x s"
  "getPinB x (sampled this s t) = getPinB x s"
  "getPinA x (s\<lparr>clock := c\<rparr>) = getPinA x s"
  "getPinB x (s\<lparr>clock := c\<rparr>) = getPinB x s"
  by (simp_all add: sampled_def getPinA_def getPinB_def)

lemma closing_run:
  "intr_loop 0 (power_on closing) = Some (sampled 0 (power_on closing) 3)"
proof -
  let ?p = "power_on closing"
  have pins: "getPinA 0 ?p = 2" "getPinB 0 ?p = 3" "signal ?p = closing" "clock ?p = 0"
    by (simp_all add: getPinA_def getPinB_def power_on_def)
  have 1: "intr_loop 0 ?p = intr_loop 0 (sampled 0 ?p 0\<lparr>clock := 3\<rparr>)"
    by (subst loop_unfold) (simp add: agree_def pins closing_def)
  have 2: "intr_loop 0 (sampled 0 ?p 0\<lparr>clock := 3\<rparr>) = Some (sampled 0 ?p 3)"
    by (subst loop_unfold) (simp add: agree_def pins closing_def)
  from 1 2 show ?thesis by simp
qed

lemma started_trace:
  "trace (started sig) =
     [Store_intHandle (Some 0), PinMode 2 INPUT_PULLUP, PinMode 3 INPUT_PULLUP,
      AttachInterrupt 0 CHANGE, AttachInterrupt 1 CHANGE]"
  "digitalPinToInterrupt (started sig) = nano_interrupt"
  "vector (started sig) = (\<lambda>n. None)(0 := Some CHANGE, 1 := Some CHANGE)"
  by (simp_all add: started_def begin_eq RotEncoder_ctor_def modify_def power_on_def
        getPinA_def getPinB_def nano_interrupt_def)

lemma engaged_step:
  "RotEncoder_intr 0 (handled 0 (started (levels [(True, True), (True, False)])) 0) =
     Some (handled 0 (handled 0 (started (levels [(True, True), (True, False)])) 0) 4)"
  by (rule intr_stable[of 0 "handled 0 (started (levels [(True, True), (True, False)])) 0", simplified])
     (simp add: agree_def levels_def)

lemma engaged_positions:
  "position (heap (handled 0 (started (levels [(True, True), (True, False)])) 0) 0) = 0"
  "position (heap (handled 0 (handled 0 (started (levels [(True, True), (True, False)])) 0) 4) 0) = 1"
  by (simp_all add: heap_handled decoded_def levels_def)

lemma reversal_run:
  "invoke_seq 0 2 (started (levels [(True, True), (False, False)])) =
     Some [(True, True, 0), (False, False, 0)]"
  by (simp add: invoke_seq_numeral intr_stable agree_def levels_def observe_handled heap_handled decoded_def)

lemma fresh_run:
  "RotEncoder_intr 0 (RotEncoder_ctor RotEncoder_class 0 stale) =
     Some (handled 0 (RotEncoder_ctor RotEncoder_class 0 stale) 0)"
proof -
  let ?c = "RotEncoder_ctor RotEncoder_class 0 stale"
  have c0: "clock ?c = 0"
    by (simp add: stale_def RotEncoder_ctor_def modify_def power_on_def)
  have "agree 0 ?c (clock ?c)"
    unfolding c0
    by (simp add: agree_def levels_def stale_def RotEncoder_ctor_def modify_def power_on_def
          getPinA_def getPinB_def)
  from intr_stable[OF this] show ?thesis by (simp only: c0)
qed

lemma cw_run:
  "invoke_seq 0 5 (started (levels [(False, False), (True, False), (True, True), (False, True), (False, False)])) =
     Some [(False, False, 0), (True, False, 0), (True, True, 0), (False, True, - 1), (False, False, - 1)]"
  by (simp add: invoke_seq_numeral intr_stable agree_def levels_def observe_handled heap_handled decoded_def)

lemma ccw_run:
  "invoke_seq 0 5 (started (levels [(False, False), (False, True), (True, True), (True, False), (False, False)])) =
     Some [(False, False, 0), (False, True, 0), (True, True, 0), (True, False, 1), (False, False, 1)]"
  by (simp add: invoke_seq_numeral intr_stable agree_def levels_def observe_handled heap_handled decoded_def)

lemma fresh_started_run:
  "RotEncoder_intr 0 (snd (RotEncoder_begin 0 (RotEncoder_ctor RotEncoder_class 0 stale))) =
     Some (handled 0 (snd (RotEncoder_begin 0 (RotEncoder_ctor RotEncoder_class 0 stale))) 0)"
proof -
  let ?c = "snd (RotEncoder_begin 0 (RotEncoder_ctor RotEncoder_class 0 stale))"
  have c0: "clock ?c = 0"
    by (simp add: begin_eq stale_def RotEncoder_ctor_def modify_def power_on_def)
  have "agree 0 ?c (clock ?c)"
    unfolding c0
    by (simp add: begin_eq agree_def levels_def stale_def RotEncoder_ctor_def modify_def power_on_def
          getPinA_def getPinB_def)
  from intr_stable[OF this] show ?thesis by (simp only: c0)
qed

lemma pending_run:
  "invoke_seq 0 6 (started (levels [(True, True), (False, False), (True, False), (True, True), (False, True), (False, False)])) =
     Some [(True, True, 0), (False, False, 0), (True, False, 1), (True, True, 1), (False, True, 0), (False, False, 0)]"
  by (simp add: invoke_seq_numeral intr_stable agree_def levels_def observe_handled heap_handled decoded_def)

lemma half_step_run:
  "invoke_seq 0 3 (started (levels [(False, True), (False, False), (True, False)])) =
     Some [(False, True, 0), (False, False, 0), (True, False, 0)]"
  by (simp add: invoke_seq_numeral intr_stable agree_def levels_def observe_handled heap_handled decoded_def)

lemma twice_reached:
  assumes "agree 0 (started sig) 0" and "agree 0 (started sig) 4"
  shows "RotEncoder_intr 0 (started sig) = Some (handled 0 (started sig) 0)"
    and "RotEncoder_intr 0 (handled 0 (started sig) 0) = Some (twice sig)"
proof -
  from assms(1) have "agree 0 (started sig) (clock (started sig))" by simp
  from intr_stable[OF this] show "RotEncoder_intr 0 (started sig) = Some (handled 0 (started sig) 0)"
    by simp
  from assms(2) have "agree 0 (handled 0 (started sig) 0) (clock (handled 0 (started sig) 0))" by simp
  from intr_stable[OF this] show "RotEncoder_intr 0 (handled 0 (started sig) 0) = Some (twice sig)"
    by (simp add: twice_def)
qed

lemma twice_simps [simp]:
  "clock (twice sig) = 8"
  "signal (twice sig) = sig"
  "getPinA 0 (twice sig) = 2"
  "getPinB 0 (twice sig) = 3"
  by (simp_all add: twice_def)

lemma heap_twice:
  "heap (twice sig) 0 =
     decoded (\<not> sig 4 2) (\<not> sig 5 3)
       (decoded (\<not> sig 0 2) (\<not> sig 1 3)
          \<lparr>vptr = RotEncoder_class, position = 0, cntflg = False, lrflg = False,
            inA = False, inB = False\<rparr>)"
  by (simp add: twice_def heap_handled)

lemmas run_simps = invoke_seq_numeral intr_stable agree_def levels_def observe_handled heap_handled
  decoded_def heap_twice

lemma pending_B_cw_run:
  "cntflg (heap (twice (levels [(True, True), (False, False),
      (False, False), (True, False), (True, True), (False, True), (False, False)])) 0)"
  "\<not> lrflg (heap (twice (levels [(True, True), (False, False),
      (False, False), (True, False), (True, True), (False, True), (False, False)])) 0)"
  "position (heap (twice (levels [(True, True), (False, False),
      (False, False), (True, False), (True, True), (False, True), (False, False)])) 0) = 0"
  "invoke_seq 0 5 (twice (levels [(True, True), (False, False),
      (False, False), (True, False), (True, True), (False, True), (False, False)])) =
     Some [(False, False, 0), (True, False, 1), (True, True, 1), (False, True, 0), (False, False, 0)]"
  by (simp_all add: run_simps)

lemma pending_B_ccw_run:
  "cntflg (heap (twice (levels [(True, True), (False, False),
      (False, False), (False, True), (True, True), (True, False), (False, False)])) 0)"
  "\<not> lrflg (heap (twice (levels [(True, True), (False, False),
      (False, False), (False, True), (True, True), (True, False), (False, False)])) 0)"
  "position (heap (twice (levels [(True, True), (False, False),
      (False, False), (False, True), (True, True), (True, False), (False, False)])) 0) = 0"
  "invoke_seq 0 5 (twice (levels [(True, True), (False, False),
      (False, False), (False, True), (True, True), (True, False), (False, False)])) =
     Some [(False, False, 0), (False, True, 0), (True, True, 0), (True, False, 1), (False, False, 1)]"
  by (simp_all add: run_simps)

lemma pending_A_cw_run:
  "cntflg (heap (twice (levels [(True, False), (True, True),
      (False, False), (True, False), (True, True), (False, True), (False, False)])) 0)"
  "lrflg (heap (twice (levels [(True, False), (True, True),
      (False, False), (True, False), (True, True), (False, True), (False, False)])) 0)"
  "position (heap (twice (levels [(True, False), (True, True),
      (False, False), (True, False), (True, True), (False, True), (False, False)])) 0) = 0"
  "invoke_seq 0 5 (twice (levels [(True, False), (True, True),
      (False, False), (True, False), (True, True), (False, True), (False, False)])) =
     Some [(False, False, 0), (True, False, 0), (True, True, 0), (False, True, - 1), (False, False, - 1)]"
  by (simp_all add: run_simps)

lemma pending_A_ccw_run:
  "cntflg (heap (twice (levels [(True, False), (True, True),
      (False, False), (False, True), (True, True), (True, False), (False, False)])) 0)"
  "lrflg (heap (twice (levels [(True, False), (True, True),
      (False, False), (False, True), (True, True), (True, False), (False, False)])) 0)"
  "position (heap (twice (levels [(True, False), (True, True),
      (False, False), (False, True), (True, True), (True, False), (False, False)])) 0) = 0"
  "invoke_seq 0 5 (twice (levels [(True, False), (True, True),
      (False, False), (False, True), (True, True), (True, False), (False, False)])) =
     Some [(False, False, 0), (False, True, - 1), (True, True, - 1), (True, False, 0), (False, False, 0)]"
  by (simp_all add: run_simps)

lemma pending_mirrored_run:
  "invoke_seq 0 7 (started (levels [(True, False), (True, True),
      (False, False), (False, True), (True, True), (True, False), (False, False)])) =
     Some [(True, False, 0), (True, True, 0),
           (False, False, 0), (False, True, - 1), (True, True, - 1), (True, False, 0), (False, False, 0)]"
  by (simp add: run_simps)

lemma engaged_A_bounce_run:
  "cntflg (heap (twice (levels [(True, False), (True, True), (False, False), (True, False)])) 0)"
  "lrflg (heap (twice (levels [(True, False), (True, True), (False, False), (True, False)])) 0)"
  "position (heap (twice (levels [(True, False), (True, True), (False, False), (True, False)])) 0) = 0"
  "invoke_seq 0 2 (twice (levels [(True, False), (True, True), (False, False), (True, False)])) =
     Some [(False, False, 0), (True, False, 0)]"
  by (simp_all add: run_simps)

lemma released_bounce_run:
  "cntflg (heap (twice (levels [(True, True), (False, False), (False, False), (True, False)])) 0)"
  "\<not> lrflg (heap (twice (levels [(True, True), (False, False), (False, False), (True, False)])) 0)"
  "position (heap (twice (levels [(True, True), (False, False), (False, False), (True, False)])) 0) = 0"
  "invoke_seq 0 2 (twice (levels [(True, True), (False, False), (False, False), (True, False)])) =
     Some [(False, False, 0), (True, False, 1)]"
  by (simp_all add: run_simps)

lemma released_reached:
  "RotEncoder_intr 0 (started (levels [(True, True), (False, False), (False, False), (True, False)])) =
     Some (handled 0 (started (levels [(True, True), (False, False), (False, False), (True, False)])) 0)"
  "RotEncoder_intr 0 (handled 0 (started (levels [(True, True), (False, False), (False, False), (True, False)])) 0) =
     Some (twice (levels [(True, True), (False, False), (False, False), (True, False)]))"
  by (rule twice_reached; simp add: agree_def levels_def)+

lemma released_whole_run:
  "invoke_seq 0 4 (started (levels [(True, True), (False, False), (False, False), (True, False)])) =
     Some [(True, True, 0), (False, False, 0), (False, False, 0), (True, False, 1)]"
  by (simp add: run_simps)

lemma first_closed_run:
  "RotEncoder_intr 0 (started (levels [(True, False)])) = Some (handled 0 (started (levels [(True, False)])) 0)"
  "inA (heap (handled 0 (started (levels [(True, False)])) 0) 0)"
  "\<not> inB (heap (handled 0 (started (levels [(True, False)])) 0) 0)"
  "position (heap (handled 0 (started (levels [(True, False)])) 0) 0) = 0"
proof -
  show "RotEncoder_intr 0 (started (levels [(True, False)])) = Some (handled 0 (started (levels [(True, False)])) 0)"
    by (rule intr_stable[of 0 "started (levels [(True, False)])", simplified]) (simp add: agree_def levels_def)
qed (simp_all add: heap_handled decoded_def levels_def)

section \<open>The claims\<close>

text \<open>
  C1 (as amended). The claim says that the cycle \<open>(0,0), (1,0), (1,1), (0,1), (0,0)\<close> of
  sampled pairs increases the position by one and the mirrored cycle decreases it. The
  handler counts the other way round: it decrements on reaching \<open>(0,1)\<close> after \<open>(1,1)\<close> when
  the last single-asserted state was \<open>(1,0)\<close>, and increments on reaching \<open>(1,0)\<close> after
  \<open>(1,1)\<close> when the last single-asserted state was \<open>(0,1)\<close>. So five consecutive
  invocations that sample \<open>(0,0), (1,0), (1,1), (0,1), (0,0)\<close> leave the position one lower,
  unless the cycle starts with a count pending and the direction flag clear: then the
  \<open>(1,0)\<close> of the cycle counts up first, and the cycle ends where it began. Five
  invocations that sample \<open>(0,0), (0,1), (1,1), (1,0), (0,0)\<close> leave the position one
  higher, unless the cycle starts with a count pending and the direction flag set: then
  the \<open>(0,1)\<close> of the cycle counts down first, and the cycle ends where it began. The
  equations hold in 32-bit arithmetic; they hold for the signed values when the counter is
  not at the end of its range.
\<close>

theorem quadrature_cycle_counts:
  "(\<not> (cntflg (heap s this) \<and> \<not> lrflg (heap s this))
      \<and> invoke_seq this 5 s =
            Some [(False, False, p1), (True, False, p2), (True, True, p3), (False, True, p4),
                  (False, False, p5)] \<longrightarrow>
        p5 = position (heap s this) - 1 \<and>
        (sint (position (heap s this)) \<noteq> - (2 ^ 31) \<longrightarrow> sint p5 = sint (position (heap s this)) - 1))
   \<and> (\<not> (cntflg (heap s this) \<and> lrflg (heap s this))
      \<and> invoke_seq this 5 s =
            Some [(False, False, q1), (False, True, q2), (True, True, q3), (True, False, q4),
                  (False, False, q5)] \<longrightarrow>
        q5 = position (heap s this) + 1 \<and>
        (sint (position (heap s this)) \<noteq> 2 ^ 31 - 1 \<longrightarrow> sint q5 = sint (position (heap s this)) + 1))
   \<and> (cntflg (heap s this) \<and> \<not> lrflg (heap s this)
      \<and> invoke_seq this 5 s =
            Some [(False, False, p1), (True, False, p2), (True, True, p3), (False, True, p4),
                  (False, False, p5)] \<longrightarrow>
        p5 = position (heap s this))
   \<and> (cntflg (heap s this) \<and> lrflg (heap s this)
      \<and> invoke_seq this 5 s =
            Some [(False, False, q1), (False, True, q2), (True, True, q3), (True, False, q4),
                  (False, False, q5)] \<longrightarrow>
        q5 = position (heap s this))"
proof (intro conjI impI)
  assume h: "\<not> (cntflg (heap s this) \<and> \<not> lrflg (heap s this))
      \<and> invoke_seq this 5 s =
            Some [(False, False, p1), (True, False, p2), (True, True, p3), (False, True, p4),
                  (False, False, p5)]"
  then have run: "invoke_seq this 5 s =
            Some [(False, False, p1), (True, False, p2), (True, True, p3), (False, True, p4),
                  (False, False, p5)]" and f: "\<not> (cntflg (heap s this) \<and> \<not> lrflg (heap s this))"
    by simp_all
  from cycle_positions[OF run] f show p5: "p5 = position (heap s this) - 1"
    by (auto simp: decoded_def)
  assume "sint (position (heap s this)) \<noteq> - (2 ^ 31)"
  then show "sint p5 = sint (position (heap s this)) - 1"
    unfolding p5 by (rule sint_pred32)
next
  assume h: "\<not> (cntflg (heap s this) \<and> lrflg (heap s this))
      \<and> invoke_seq this 5 s =
            Some [(False, False, q1), (False, True, q2), (True, True, q3), (True, False, q4),
                  (False, False, q5)]"
  then have run: "invoke_seq this 5 s =
            Some [(False, False, q1), (False, True, q2), (True, True, q3), (True, False, q4),
                  (False, False, q5)]" and f: "\<not> (cntflg (heap s this) \<and> lrflg (heap s this))"
    by simp_all
  from cycle_positions[OF run] f show q5: "q5 = position (heap s this) + 1"
    by (auto simp: decoded_def)
  assume "sint (position (heap s this)) \<noteq> 2 ^ 31 - 1"
  then show "sint q5 = sint (position (heap s this)) + 1"
    unfolding q5 by (rule sint_succ32)
next
  assume h: "cntflg (heap s this) \<and> \<not> lrflg (heap s this)
      \<and> invoke_seq this 5 s =
            Some [(False, False, p1), (True, False, p2), (True, True, p3), (False, True, p4),
                  (False, False, p5)]"
  then have run: "invoke_seq this 5 s =
            Some [(False, False, p1), (True, False, p2), (True, True, p3), (False, True, p4),
                  (False, False, p5)]" and f: "cntflg (heap s this)" "\<not> lrflg (heap s this)"
    by simp_all
  from cycle_positions[OF run] f show "p5 = position (heap s this)"
    by (simp add: decoded_def)
next
  assume h: "cntflg (heap s this) \<and> lrflg (heap s this)
      \<and> invoke_seq this 5 s =
            Some [(False, False, q1), (False, True, q2), (True, True, q3), (True, False, q4),
                  (False, False, q5)]"
  then have run: "invoke_seq this 5 s =
            Some [(False, False, q1), (False, True, q2), (True, True, q3), (True, False, q4),
                  (False, False, q5)]" and f: "cntflg (heap s this)" "lrflg (heap s this)"
    by simp_all
  from cycle_positions[OF run] f show "q5 = position (heap s this)"
    by (simp add: decoded_def)
qed

text \<open>
  The theorem at six concrete runs. Each cycle is run from a freshly started encoder; from
  a started encoder in which a count is pending and the direction flag is such that the
  cycle still counts (there the test of the direction flag decides); and from one in which
  a count is pending and the direction flag is the other way, where the cycle ends where it
  began.
\<close>

theorem quadrature_cycle_counts_witness:
  "invoke_seq 0 5 (started (levels [(False, False), (True, False), (True, True), (False, True), (False, False)])) =
     Some [(False, False, 0), (True, False, 0), (True, True, 0), (False, True, - 1), (False, False, - 1)]
   \<and> (- 1 :: long) = position (heap (started (levels [(False, False), (True, False), (True, True), (False, True), (False, False)])) 0) - 1
   \<and> sint (- 1 :: long) = sint (position (heap (started (levels [(False, False), (True, False), (True, True), (False, True), (False, False)])) 0)) - 1
   \<and> cntflg (heap (twice (levels [(True, False), (True, True),
        (False, False), (True, False), (True, True), (False, True), (False, False)])) 0)
   \<and> lrflg (heap (twice (levels [(True, False), (True, True),
        (False, False), (True, False), (True, True), (False, True), (False, False)])) 0)
   \<and> invoke_seq 0 5 (twice (levels [(True, False), (True, True),
        (False, False), (True, False), (True, True), (False, True), (False, False)])) =
     Some [(False, False, 0), (True, False, 0), (True, True, 0), (False, True, - 1), (False, False, - 1)]
   \<and> (- 1 :: long) = position (heap (twice (levels [(True, False), (True, True),
        (False, False), (True, False), (True, True), (False, True), (False, False)])) 0) - 1
   \<and> invoke_seq 0 5 (started (levels [(False, False), (False, True), (True, True), (True, False), (False, False)])) =
     Some [(False, False, 0), (False, True, 0), (True, True, 0), (True, False, 1), (False, False, 1)]
   \<and> (1 :: long) = position (heap (started (levels [(False, False), (False, True), (True, True), (True, False), (False, False)])) 0) + 1
   \<and> sint (1 :: long) = sint (position (heap (started (levels [(False, False), (False, True), (True, True), (True, False), (False, False)])) 0)) + 1
   \<and> cntflg (heap (twice (levels [(True, True), (False, False),
        (False, False), (False, True), (True, True), (True, False), (False, False)])) 0)
   \<and> \<not> lrflg (heap (twice (levels [(True, True), (False, False),
        (False, False), (False, True), (True, True), (True, False), (False, False)])) 0)
   \<and> invoke_seq 0 5 (twice (levels [(True, True), (False, False),
        (False, False), (False, True), (True, True), (True, False), (False, False)])) =
     Some [(False, False, 0), (False, True, 0), (True, True, 0), (True, False, 1), (False, False, 1)]
   \<and> (1 :: long) = position (heap (twice (levels [(True, True), (False, False),
        (False, False), (False, True), (True, True), (True, False), (False, False)])) 0) + 1
   \<and> invoke_seq 0 5 (twice (levels [(True, True), (False, False),
        (False, False), (True, False), (True, True), (False, True), (False, False)])) =
     Some [(False, False, 0), (True, False, 1), (True, True, 1), (False, True, 0), (False, False, 0)]
   \<and> (0 :: long) = position (heap (twice (levels [(True, True), (False, False),
        (False, False), (True, False), (True, True), (False, True), (False, False)])) 0)
   \<and> invoke_seq 0 5 (twice (levels [(True, False), (True, True),
        (False, False), (False, True), (True, True), (True, False), (False, False)])) =
     Some [(False, False, 0), (False, True, - 1), (True, True, - 1), (True, False, 0), (False, False, 0)]
   \<and> (0 :: long) = position (heap (twice (levels [(True, False), (True, True),
        (False, False), (False, True), (True, True), (True, False), (False, False)])) 0)"
proof -
  let ?s = "started (levels [(False, False), (True, False), (True, True), (False, True), (False, False)])"
  let ?u = "started (levels [(False, False), (False, True), (True, True), (True, False), (False, False)])"
  let ?a = "twice (levels [(True, False), (True, True),
        (False, False), (True, False), (True, True), (False, True), (False, False)])"
  let ?b = "twice (levels [(True, True), (False, False),
        (False, False), (False, True), (True, True), (True, False), (False, False)])"
  let ?c = "twice (levels [(True, True), (False, False),
        (False, False), (True, False), (True, True), (False, True), (False, False)])"
  let ?d = "twice (levels [(True, False), (True, True),
        (False, False), (False, True), (True, True), (True, False), (False, False)])"
  have fs: "\<not> (cntflg (heap ?s 0) \<and> \<not> lrflg (heap ?s 0))" by simp
  have ne: "sint (position (heap ?s 0)) \<noteq> - (2 ^ 31)" by simp
  have fu: "\<not> (cntflg (heap ?u 0) \<and> lrflg (heap ?u 0))" by simp
  have ne': "sint (position (heap ?u 0)) \<noteq> 2 ^ 31 - 1" by simp
  have fa: "\<not> (cntflg (heap ?a 0) \<and> \<not> lrflg (heap ?a 0))"
    using pending_A_cw_run(2) by simp
  have fb: "\<not> (cntflg (heap ?b 0) \<and> lrflg (heap ?b 0))"
    using pending_B_ccw_run(2) by simp
  from quadrature_cycle_counts[of ?s 0 0 0 0 "- 1" "- 1"] fs cw_run ne
  have 1: "(- 1 :: long) = position (heap ?s 0) - 1 \<and> sint (- 1 :: long) = sint (position (heap ?s 0)) - 1"
    by blast
  from quadrature_cycle_counts[of ?a 0 0 0 0 "- 1" "- 1"] fa pending_A_cw_run(4)
  have 2: "(- 1 :: long) = position (heap ?a 0) - 1" by blast
  from quadrature_cycle_counts[of ?u 0 _ _ _ _ _ 0 0 0 1 1] fu ccw_run ne'
  have 3: "(1 :: long) = position (heap ?u 0) + 1 \<and> sint (1 :: long) = sint (position (heap ?u 0)) + 1"
    by blast
  from quadrature_cycle_counts[of ?b 0 _ _ _ _ _ 0 0 0 1 1] fb pending_B_ccw_run(4)
  have 4: "(1 :: long) = position (heap ?b 0) + 1" by blast
  from quadrature_cycle_counts[of ?c 0 0 1 1 0 0] pending_B_cw_run(1,2,4)
  have 5: "(0 :: long) = position (heap ?c 0)" by blast
  from quadrature_cycle_counts[of ?d 0 _ _ _ _ _ 0 "- 1" "- 1" 0 0] pending_A_ccw_run(1,2,4)
  have 6: "(0 :: long) = position (heap ?d 0)" by blast
  from 1 2 3 4 5 6 cw_run ccw_run pending_A_cw_run(1,2,4) pending_B_ccw_run(1,2,4)
    pending_B_cw_run(4) pending_A_ccw_run(4)
  show ?thesis by blast
qed

text \<open>
  The claim as stated fails: from a freshly started encoder with position 0, the first
  cycle ends at position \<open>-1\<close>, not at \<open>0 + 1\<close>, and the mirrored cycle ends at \<open>1\<close>, not
  at \<open>0 - 1\<close>. The last two runs show the two kinds of state that the amended statement
  leaves out: after \<open>(1,1), (0,0)\<close> a count is pending with the direction flag clear, and
  the first cycle, which shares its first \<open>(0,0)\<close> with that prefix, ends where it began;
  after \<open>(1,0), (1,1)\<close> a count is pending with the direction flag set, and the mirrored
  cycle ends where it began.
\<close>

theorem clockwise_cycle_decrements:
  "position (heap (started (levels [(False, False), (True, False), (True, True), (False, True), (False, False)])) 0) = 0
   \<and> invoke_seq 0 5 (started (levels [(False, False), (True, False), (True, True), (False, True), (False, False)])) =
     Some [(False, False, 0), (True, False, 0), (True, True, 0), (False, True, - 1), (False, False, - 1)]
   \<and> (- 1 :: long) \<noteq> 0 + 1
   \<and> position (heap (started (levels [(False, False), (False, True), (True, True), (True, False), (False, False)])) 0) = 0
   \<and> invoke_seq 0 5 (started (levels [(False, False), (False, True), (True, True), (True, False), (False, False)])) =
     Some [(False, False, 0), (False, True, 0), (True, True, 0), (True, False, 1), (False, False, 1)]
   \<and> (1 :: long) \<noteq> 0 - 1
   \<and> invoke_seq 0 6 (started (levels [(True, True), (False, False), (True, False), (True, True), (False, True), (False, False)])) =
     Some [(True, True, 0), (False, False, 0), (True, False, 1), (True, True, 1), (False, True, 0), (False, False, 0)]
   \<and> invoke_seq 0 7 (started (levels [(True, False), (True, True),
        (False, False), (False, True), (True, True), (True, False), (False, False)])) =
     Some [(True, False, 0), (True, True, 0),
           (False, False, 0), (False, True, - 1), (True, True, - 1), (True, False, 0), (False, False, 0)]"
  using cw_run ccw_run pending_run pending_mirrored_run by simp

text \<open>
  C2. \<^verbatim>\<open>begin()\<close> returns true exactly when no instance is registered. Then it stores
  \<^verbatim>\<open>this\<close> in the registration slot, sets both pins to input with pull-up and attaches
  the routine to the interrupts of both pins with trigger \<^verbatim>\<open>CHANGE\<close>, in this order, and
  changes nothing else. Otherwise it returns false and leaves the whole state as it was.
  In particular, after a successful \<^verbatim>\<open>begin()\<close> a further \<^verbatim>\<open>begin()\<close> on any instance
  \<open>that\<close>, the same one or another one, returns false and changes nothing.
\<close>

theorem begin_succeeds_iff_unregistered:
  "RotEncoder_begin this s =
     (if intHandle s = None then
        (True, s\<lparr>intHandle := Some this,
                 pin_mode := (pin_mode s)(getPinA this s := INPUT_PULLUP, getPinB this s := INPUT_PULLUP),
                 vector := (vector s)(digitalPinToInterrupt s (getPinA this s) := Some CHANGE,
                                      digitalPinToInterrupt s (getPinB this s) := Some CHANGE),
                 trace := trace s @ [Store_intHandle (Some this),
                                     PinMode (getPinA this s) INPUT_PULLUP,
                                     PinMode (getPinB this s) INPUT_PULLUP,
                                     AttachInterrupt (digitalPinToInterrupt s (getPinA this s)) CHANGE,
                                     AttachInterrupt (digitalPinToInterrupt s (getPinB this s)) CHANGE]\<rparr>)
      else (False, s))
   \<and> fst (RotEncoder_begin this s) = (intHandle s = None)
   \<and> (intHandle s = None \<longrightarrow>
        intHandle (snd (RotEncoder_begin this s)) = Some this
        \<and> pin_mode (snd (RotEncoder_begin this s)) (getPinA this s) = INPUT_PULLUP
        \<and> pin_mode (snd (RotEncoder_begin this s)) (getPinB this s) = INPUT_PULLUP
        \<and> vector (snd (RotEncoder_begin this s)) (digitalPinToInterrupt s (getPinA this s)) = Some CHANGE
        \<and> vector (snd (RotEncoder_begin this s)) (digitalPinToInterrupt s (getPinB this s)) = Some CHANGE
        \<and> RotEncoder_begin that (snd (RotEncoder_begin this s)) = (False, snd (RotEncoder_begin this s)))
   \<and> (intHandle s \<noteq> None \<longrightarrow> RotEncoder_begin this s = (False, s))"
  by (simp add: begin_eq)

text \<open>The theorem on the Arduino Nano at power-on, for the object at address 0.\<close>

theorem begin_succeeds_iff_unregistered_witness:
  "intHandle (power_on (levels [])) = None
   \<and> RotEncoder_begin 0 (power_on (levels [])) = (True, started (levels []))
   \<and> intHandle (started (levels [])) = Some 0
   \<and> pin_mode (started (levels [])) 2 = INPUT_PULLUP
   \<and> pin_mode (started (levels [])) 3 = INPUT_PULLUP
   \<and> vector (started (levels [])) 0 = Some CHANGE
   \<and> vector (started (levels [])) 1 = Some CHANGE
   \<and> RotEncoder_begin 0 (started (levels [])) = (False, started (levels []))
   \<and> RotEncoder_begin 1 (started (levels [])) = (False, started (levels []))"
proof -
  let ?p = "power_on (levels [])"
  let ?c = "RotEncoder_ctor RotEncoder_class 0 ?p"
  have c: "?c = ?p"
    by (simp add: RotEncoder_ctor_def modify_def power_on_def fun_eq_iff)
  have e: "intHandle ?p = None" by (simp add: power_on_def)
  have pins: "getPinA 0 ?p = 2" "getPinB 0 ?p = 3" "digitalPinToInterrupt ?p 2 = 0"
    "digitalPinToInterrupt ?p 3 = 1"
    by (simp_all add: getPinA_def getPinB_def power_on_def nano_interrupt_def)
  have st: "snd (RotEncoder_begin 0 ?p) = started (levels [])"
    by (simp add: started_def c)
  have fstb: "fst (RotEncoder_begin 0 ?p)"
    using begin_succeeds_iff_unregistered[of 0 ?p 0] e by blast
  have r: "intHandle (snd (RotEncoder_begin 0 ?p)) = Some 0
        \<and> pin_mode (snd (RotEncoder_begin 0 ?p)) (getPinA 0 ?p) = INPUT_PULLUP
        \<and> pin_mode (snd (RotEncoder_begin 0 ?p)) (getPinB 0 ?p) = INPUT_PULLUP
        \<and> vector (snd (RotEncoder_begin 0 ?p)) (digitalPinToInterrupt ?p (getPinA 0 ?p)) = Some CHANGE
        \<and> vector (snd (RotEncoder_begin 0 ?p)) (digitalPinToInterrupt ?p (getPinB 0 ?p)) = Some CHANGE
        \<and> RotEncoder_begin that (snd (RotEncoder_begin 0 ?p)) = (False, snd (RotEncoder_begin 0 ?p))"
    for that
    using begin_succeeds_iff_unregistered[of 0 ?p that] e by blast
  have b: "RotEncoder_begin 0 ?p = (True, started (levels []))"
    using fstb st by (simp add: prod_eq_iff)
  have ne: "intHandle (started (levels [])) \<noteq> None" by simp
  have f: "RotEncoder_begin 0 (started (levels [])) = (False, started (levels []))"
    using begin_succeeds_iff_unregistered[of 0 "started (levels [])"] ne by blast
  from r[of 1] b e f show ?thesis
    unfolding st pins by simp
qed

text \<open>
  C3. \<^verbatim>\<open>end()\<close> returns true exactly when the registration slot holds \<^verbatim>\<open>this\<close>. Then it
  clears the slot and detaches the interrupts of both pins, and changes nothing else; the
  event log shows the store to the slot before the two calls of \<^verbatim>\<open>detachInterrupt\<close>.
  Otherwise it returns false and leaves the whole state as it was.
\<close>

theorem end_succeeds_iff_registered:
  "RotEncoder_end this s =
     (if intHandle s = Some this then
        (True, s\<lparr>intHandle := None,
                 vector := (vector s)(digitalPinToInterrupt s (getPinA this s) := None,
                                      digitalPinToInterrupt s (getPinB this s) := None),
                 trace := trace s @ [Store_intHandle None,
                                     DetachInterrupt (digitalPinToInterrupt s (getPinA this s)),
                                     DetachInterrupt (digitalPinToInterrupt s (getPinB this s))]\<rparr>)
      else (False, s))
   \<and> fst (RotEncoder_end this s) = (intHandle s = Some this)"
  by (simp add: end_eq)

text \<open>
  The theorem on a started encoder: \<^verbatim>\<open>end()\<close> on the registered object, and on another
  object.
\<close>

theorem end_succeeds_iff_registered_witness:
  "fst (RotEncoder_end 0 (started (levels [])))
   \<and> intHandle (snd (RotEncoder_end 0 (started (levels [])))) = None
   \<and> vector (snd (RotEncoder_end 0 (started (levels [])))) 0 = None
   \<and> vector (snd (RotEncoder_end 0 (started (levels [])))) 1 = None
   \<and> trace (snd (RotEncoder_end 0 (started (levels [])))) =
       [Store_intHandle (Some 0), PinMode 2 INPUT_PULLUP, PinMode 3 INPUT_PULLUP,
        AttachInterrupt 0 CHANGE, AttachInterrupt 1 CHANGE,
        Store_intHandle None, DetachInterrupt 0, DetachInterrupt 1]
   \<and> RotEncoder_end 1 (started (levels [])) = (False, started (levels []))"
proof -
  let ?s = "started (levels [])"
  have e0: "RotEncoder_end 0 ?s =
      (True, ?s\<lparr>intHandle := None,
                 vector := (vector ?s)(digitalPinToInterrupt ?s (getPinA 0 ?s) := None,
                                      digitalPinToInterrupt ?s (getPinB 0 ?s) := None),
                 trace := trace ?s @ [Store_intHandle None,
                                     DetachInterrupt (digitalPinToInterrupt ?s (getPinA 0 ?s)),
                                     DetachInterrupt (digitalPinToInterrupt ?s (getPinB 0 ?s))]\<rparr>)"
    using end_succeeds_iff_registered[of 0 ?s] by simp
  have e1: "RotEncoder_end 1 ?s = (False, ?s)"
    using end_succeeds_iff_registered[of 1 ?s] by simp
  show ?thesis
    unfolding e0 e1 by (simp add: started_trace nano_interrupt_def)
qed

text \<open>
  C4. An invocation of the handler that returns leaves the position counter of its object
  as it was, or one higher, or one lower (in 32-bit arithmetic the difference has absolute
  value at most 1; so have the signed values when the counter is not at an end of its
  range), and leaves every other object as it was. \<^verbatim>\<open>begin()\<close>, \<^verbatim>\<open>end()\<close>,
  \<^verbatim>\<open>getPosition()\<close> and the destructor change the position counter of no object. (The
  constructor initialises the counter of the new object to 0.)
\<close>

theorem position_changes_only_in_handler:
  "(RotEncoder_intr this s = Some s' \<longrightarrow>
      (position (heap s' this) = position (heap s this)
         \<or> position (heap s' this) = position (heap s this) + 1
         \<or> position (heap s' this) = position (heap s this) - 1)
      \<and> \<bar>sint (position (heap s' this) - position (heap s this))\<bar> \<le> 1
      \<and> (sint (position (heap s this)) \<noteq> 2 ^ 31 - 1 \<and> sint (position (heap s this)) \<noteq> - (2 ^ 31) \<longrightarrow>
           \<bar>sint (position (heap s' this)) - sint (position (heap s this))\<bar> \<le> 1)
      \<and> (\<forall>x. x \<noteq> this \<longrightarrow> heap s' x = heap s x))
   \<and> (\<forall>x. position (heap (snd (RotEncoder_begin this s)) x) = position (heap s x))
   \<and> (\<forall>x. position (heap (snd (RotEncoder_end this s)) x) = position (heap s x))
   \<and> (\<forall>x. position (heap (snd (RotEncoder_getPosition this s)) x) = position (heap s x))
   \<and> (\<forall>x. position (heap (RotEncoder_dtor this s) x) = position (heap s x))"
proof (intro conjI impI allI)
  assume run: "RotEncoder_intr this s = Some s'"
  let ?r = "decoded (inA (heap s' this)) (inB (heap s' this)) (heap s this)"
  from intr_step_this[OF run] have p: "position (heap s' this) = position ?r" by simp
  from position_decoded[of "inA (heap s' this)" "inB (heap s' this)" "heap s this"]
  show d: "position (heap s' this) = position (heap s this)
         \<or> position (heap s' this) = position (heap s this) + 1
         \<or> position (heap s' this) = position (heap s this) - 1"
    unfolding p .
  from d show "\<bar>sint (position (heap s' this) - position (heap s this))\<bar> \<le> 1"
    by (rule sint_step32)
  {
    assume "sint (position (heap s this)) \<noteq> 2 ^ 31 - 1 \<and> sint (position (heap s this)) \<noteq> - (2 ^ 31)"
    with d show "\<bar>sint (position (heap s' this)) - sint (position (heap s this))\<bar> \<le> 1"
      using sint_step32_signed by blast
  }
  fix x assume "x \<noteq> this"
  with run show "heap s' x = heap s x" by (rule intr_step_other)
next
  fix x show "position (heap (snd (RotEncoder_begin this s)) x) = position (heap s x)" by simp
next
  fix x show "position (heap (snd (RotEncoder_end this s)) x) = position (heap s x)" by simp
next
  fix x show "position (heap (snd (RotEncoder_getPosition this s)) x) = position (heap s x)"
    by (simp add: getPosition_eq)
next
  fix x show "position (heap (RotEncoder_dtor this s) x) = position (heap s x)"
    by (simp add: dtor_eq modify_def)
qed

text \<open>
  The theorem at an invocation that counts: a started encoder that has sampled \<open>(1,1)\<close>
  and now samples \<open>(1,0)\<close>.
\<close>

theorem position_changes_only_in_handler_witness:
  "RotEncoder_intr 0 (handled 0 (started (levels [(True, True), (True, False)])) 0) =
     Some (handled 0 (handled 0 (started (levels [(True, True), (True, False)])) 0) 4)
   \<and> position (heap (handled 0 (started (levels [(True, True), (True, False)])) 0) 0) = 0
   \<and> position (heap (handled 0 (handled 0 (started (levels [(True, True), (True, False)])) 0) 4) 0) = 1
   \<and> \<bar>sint (position (heap (handled 0 (handled 0 (started (levels [(True, True), (True, False)])) 0) 4) 0)
            - position (heap (handled 0 (started (levels [(True, True), (True, False)])) 0) 0))\<bar> \<le> 1
   \<and> \<bar>sint (position (heap (handled 0 (handled 0 (started (levels [(True, True), (True, False)])) 0) 4) 0))
            - sint (position (heap (handled 0 (started (levels [(True, True), (True, False)])) 0) 0))\<bar> \<le> 1
   \<and> heap (handled 0 (handled 0 (started (levels [(True, True), (True, False)])) 0) 4) 1
       = heap (handled 0 (started (levels [(True, True), (True, False)])) 0) 1"
proof -
  let ?s = "handled 0 (started (levels [(True, True), (True, False)])) 0"
  let ?s' = "handled 0 ?s 4"
  have ne: "(1 :: addr) \<noteq> 0" by simp
  have rg: "sint (position (heap ?s 0)) \<noteq> 2 ^ 31 - 1 \<and> sint (position (heap ?s 0)) \<noteq> - (2 ^ 31)"
    by (simp add: engaged_positions)
  from position_changes_only_in_handler[of 0 ?s ?s'] engaged_step
  have "\<bar>sint (position (heap ?s' 0) - position (heap ?s 0))\<bar> \<le> 1
        \<and> (sint (position (heap ?s 0)) \<noteq> 2 ^ 31 - 1 \<and> sint (position (heap ?s 0)) \<noteq> - (2 ^ 31) \<longrightarrow>
             \<bar>sint (position (heap ?s' 0)) - sint (position (heap ?s 0))\<bar> \<le> 1)
        \<and> (\<forall>x. x \<noteq> 0 \<longrightarrow> heap ?s' x = heap ?s x)"
    by blast
  with ne rg have "\<bar>sint (position (heap ?s' 0) - position (heap ?s 0))\<bar> \<le> 1
     \<and> \<bar>sint (position (heap ?s' 0)) - sint (position (heap ?s 0))\<bar> \<le> 1
     \<and> heap ?s' 1 = heap ?s 1"
    by blast
  with engaged_step engaged_positions show ?thesis by blast
qed

text \<open>
  C5 (as amended). The claim speaks of every decoder state and takes the count-pending flag
  to be clear whenever \<open>(1,0)\<close> is reached from the rest state. The flag can be set at rest:
  \<open>(1,1)\<close> sets it and \<open>(0,0)\<close> leaves it as it is. What holds is this. In every state but
  those in which a count is pending and the direction flag is clear, an invocation that
  samples \<open>(1,0)\<close> leaves the position counter unchanged, and so do two consecutive
  invocations that sample \<open>(0,0)\<close> and then \<open>(1,0)\<close>. In the states in which a count is
  pending and the direction flag is clear, the two invocations leave the position one
  higher. In every state, after an invocation that sampled a single-asserted pair, \<open>(1,0)\<close>
  or \<open>(0,1)\<close>, invocations that sample \<open>(0,0)\<close> and then \<open>(1,0)\<close> leave the position counter
  unchanged.
\<close>

theorem single_asserted_after_rest:
  "(\<not> (cntflg (heap s this) \<and> \<not> lrflg (heap s this))
      \<and> RotEncoder_intr this s = Some s' \<and> inA (heap s' this) \<and> \<not> inB (heap s' this) \<longrightarrow>
        position (heap s' this) = position (heap s this))
   \<and> (\<not> (cntflg (heap s this) \<and> \<not> lrflg (heap s this))
      \<and> invoke_seq this 2 s = Some [(False, False, p1), (True, False, p2)] \<longrightarrow>
        p1 = position (heap s this) \<and> p2 = position (heap s this))
   \<and> (cntflg (heap s this) \<and> \<not> lrflg (heap s this)
      \<and> invoke_seq this 2 s = Some [(False, False, p1), (True, False, p2)] \<longrightarrow>
        p1 = position (heap s this) \<and> p2 = position (heap s this) + 1)
   \<and> (invoke_seq this 3 s = Some [(a, \<not> a, q0), (False, False, q1), (True, False, q2)] \<longrightarrow>
        q1 = q0 \<and> q2 = q0)"
proof (intro conjI impI)
  assume h: "\<not> (cntflg (heap s this) \<and> \<not> lrflg (heap s this))
      \<and> RotEncoder_intr this s = Some s' \<and> inA (heap s' this) \<and> \<not> inB (heap s' this)"
  then have run: "RotEncoder_intr this s = Some s'"
    and ab: "inA (heap s' this)" "\<not> inB (heap s' this)"
    and f: "\<not> (cntflg (heap s this) \<and> \<not> lrflg (heap s this))" by simp_all
  from intr_step_this[OF run] ab
  have "position (heap s' this) = position (decoded True False (heap s this))"
    by simp
  with f show "position (heap s' this) = position (heap s this)"
    by (auto simp: decoded_def)
next
  assume h: "\<not> (cntflg (heap s this) \<and> \<not> lrflg (heap s this))
      \<and> invoke_seq this 2 s = Some [(False, False, p1), (True, False, p2)]"
  then have run: "invoke_seq this 2 s = Some [(False, False, p1), (True, False, p2)]"
    and f: "\<not> (cntflg (heap s this) \<and> \<not> lrflg (heap s this))" by simp_all
  from pair_positions[OF run] f
  show "p1 = position (heap s this)" "p2 = position (heap s this)"
    by (auto simp: decoded_def)
next
  assume h: "cntflg (heap s this) \<and> \<not> lrflg (heap s this)
      \<and> invoke_seq this 2 s = Some [(False, False, p1), (True, False, p2)]"
  then have run: "invoke_seq this 2 s = Some [(False, False, p1), (True, False, p2)]"
    and f: "cntflg (heap s this)" "\<not> lrflg (heap s this)" by simp_all
  from pair_positions[OF run] f
  show "p1 = position (heap s this)" "p2 = position (heap s this) + 1"
    by (simp_all add: decoded_def)
next
  assume run: "invoke_seq this 3 s = Some [(a, \<not> a, q0), (False, False, q1), (True, False, q2)]"
  from triple_positions[OF run]
  show "q1 = q0" "q2 = q0"
    by (simp_all add: decoded_def)
qed

text \<open>
  The theorem at started encoders: one whose first interrupt samples \<open>(1,0)\<close>; one in which
  a count is pending and the direction flag is set, after \<open>(1,0), (1,1)\<close>, where the test of
  the direction flag keeps the position; one in which a count is pending and the direction
  flag is clear, after \<open>(1,1), (0,0)\<close>, where the position goes up; and one whose input goes
  from \<open>(0,1)\<close> over \<open>(0,0)\<close> to \<open>(1,0)\<close>.
\<close>

theorem single_asserted_after_rest_witness:
  "RotEncoder_intr 0 (started (levels [(True, False)])) = Some (handled 0 (started (levels [(True, False)])) 0)
   \<and> inA (heap (handled 0 (started (levels [(True, False)])) 0) 0)
   \<and> \<not> inB (heap (handled 0 (started (levels [(True, False)])) 0) 0)
   \<and> position (heap (handled 0 (started (levels [(True, False)])) 0) 0)
       = position (heap (started (levels [(True, False)])) 0)
   \<and> cntflg (heap (twice (levels [(True, False), (True, True), (False, False), (True, False)])) 0)
   \<and> lrflg (heap (twice (levels [(True, False), (True, True), (False, False), (True, False)])) 0)
   \<and> invoke_seq 0 2 (twice (levels [(True, False), (True, True), (False, False), (True, False)])) =
        Some [(False, False, 0), (True, False, 0)]
   \<and> (0 :: long) = position (heap (twice (levels [(True, False), (True, True), (False, False), (True, False)])) 0)
   \<and> cntflg (heap (twice (levels [(True, True), (False, False), (False, False), (True, False)])) 0)
   \<and> \<not> lrflg (heap (twice (levels [(True, True), (False, False), (False, False), (True, False)])) 0)
   \<and> invoke_seq 0 2 (twice (levels [(True, True), (False, False), (False, False), (True, False)])) =
        Some [(False, False, 0), (True, False, 1)]
   \<and> (1 :: long) = position (heap (twice (levels [(True, True), (False, False), (False, False), (True, False)])) 0) + 1
   \<and> invoke_seq 0 3 (started (levels [(False, True), (False, False), (True, False)])) =
        Some [(False, True, 0), (False, False, 0), (True, False, 0)]"
proof -
  let ?v = "started (levels [(True, False)])"
  let ?a = "twice (levels [(True, False), (True, True), (False, False), (True, False)])"
  let ?b = "twice (levels [(True, True), (False, False), (False, False), (True, False)])"
  let ?u = "started (levels [(False, True), (False, False), (True, False)])"
  have fv: "\<not> (cntflg (heap ?v 0) \<and> \<not> lrflg (heap ?v 0))" by simp
  have fa: "\<not> (cntflg (heap ?a 0) \<and> \<not> lrflg (heap ?a 0))"
    using engaged_A_bounce_run(2) by simp
  have ru: "invoke_seq 0 3 ?u = Some [(False, \<not> False, 0), (False, False, 0), (True, False, 0)]"
    using half_step_run by simp
  from single_asserted_after_rest[of ?v 0 "handled 0 ?v 0"] fv first_closed_run(1,2,3)
  have 1: "position (heap (handled 0 ?v 0) 0) = position (heap ?v 0)" by blast
  from single_asserted_after_rest[of ?a 0 _ 0 0] fa engaged_A_bounce_run(4)
  have 2: "(0 :: long) = position (heap ?a 0)" by blast
  from single_asserted_after_rest[of ?b 0 _ 0 1] released_bounce_run(1,2,4)
  have 3: "(1 :: long) = position (heap ?b 0) + 1" by blast
  from single_asserted_after_rest[of ?u 0 _ _ _ False 0 0 0] ru
  have 4: "(0 :: long) = 0 \<and> (0 :: long) = 0" by blast
  from 1 2 3 first_closed_run(1,2,3) engaged_A_bounce_run(1,2,4) released_bounce_run(1,2,4) half_step_run
  show ?thesis by blast
qed

text \<open>
  The claim as stated fails: a started encoder that has sampled \<open>(1,1)\<close> and then \<open>(0,0)\<close>
  is at rest with position 0 and a count pending; two further invocations that sample
  \<open>(0,0)\<close> and then \<open>(1,0)\<close>, with no \<open>(1,1)\<close> between them, leave the position at 1.
\<close>

theorem pending_count_at_rest_is_counted:
  "RotEncoder_intr 0 (started (levels [(True, True), (False, False), (False, False), (True, False)])) =
     Some (handled 0 (started (levels [(True, True), (False, False), (False, False), (True, False)])) 0)
   \<and> RotEncoder_intr 0 (handled 0 (started (levels [(True, True), (False, False), (False, False), (True, False)])) 0) =
     Some (twice (levels [(True, True), (False, False), (False, False), (True, False)]))
   \<and> position (heap (twice (levels [(True, True), (False, False), (False, False), (True, False)])) 0) = 0
   \<and> invoke_seq 0 2 (twice (levels [(True, True), (False, False), (False, False), (True, False)])) =
        Some [(False, False, 0), (True, False, 1)]
   \<and> (1 :: long) \<noteq> 0
   \<and> invoke_seq 0 4 (started (levels [(True, True), (False, False), (False, False), (True, False)])) =
        Some [(True, True, 0), (False, False, 0), (False, False, 0), (True, False, 1)]"
  using released_reached released_bounce_run(3,4) released_whole_run by simp

text \<open>
  C6. In every state, two consecutive invocations that sample \<open>(1,1)\<close> and then \<open>(0,0)\<close>
  leave the position counter unchanged.
\<close>

theorem reversal_mid_step_not_counted:
  assumes "invoke_seq this 2 s = Some [(True, True, p1), (False, False, p2)]"
  shows "p1 = position (heap s this) \<and> p2 = position (heap s this)"
  using pair_positions[OF assms] by (simp add: decoded_def)

text \<open>The theorem at a started encoder whose input goes from \<open>(1,1)\<close> to \<open>(0,0)\<close>.\<close>

theorem reversal_mid_step_not_counted_witness:
  "invoke_seq 0 2 (started (levels [(True, True), (False, False)])) =
     Some [(True, True, 0), (False, False, 0)]
   \<and> (0 :: long) = position (heap (started (levels [(True, True), (False, False)])) 0)"
  using reversal_mid_step_not_counted[OF reversal_run] reversal_run by blast

text \<open>
  C7. \<^verbatim>\<open>getPosition()\<close> returns the current value of the position counter of its object.
  The read is taken inside the critical section: it is logged with the interrupt enable
  bit clear, whatever the bit was when \<^verbatim>\<open>getPosition()\<close> was called, and it is the only
  event that the call adds to the log. Apart from that entry of the log the call leaves the
  whole state as it was: every data member of every object, the registration slot, the
  pins and the interrupt vector, and the interrupt enable bit, which the atomic block
  restores.
\<close>

theorem getPosition_snapshot:
  "RotEncoder_getPosition this s =
     (position (heap s this), s\<lparr>trace := trace s @ [Read_position this False]\<rparr>)
   \<and> fst (RotEncoder_getPosition this s) = position (heap s this)
   \<and> trace (snd (RotEncoder_getPosition this s)) = trace s @ [Read_position this False]
   \<and> iflag (snd (RotEncoder_getPosition this s)) = iflag s
   \<and> heap (snd (RotEncoder_getPosition this s)) = heap s
   \<and> intHandle (snd (RotEncoder_getPosition this s)) = intHandle s"
  by (simp add: RotEncoder_getPosition_def ATOMIC_BLOCK_def read_position_def cli_def emit_def)

text \<open>
  The theorem at a started encoder, whose interrupts are enabled when \<^verbatim>\<open>getPosition()\<close> is
  called: the read is made with the interrupts disabled, and they are enabled again
  afterwards.
\<close>

theorem getPosition_snapshot_witness:
  "iflag (started (levels []))
   \<and> fst (RotEncoder_getPosition 0 (started (levels []))) = 0
   \<and> trace (snd (RotEncoder_getPosition 0 (started (levels [])))) =
       [Store_intHandle (Some 0), PinMode 2 INPUT_PULLUP, PinMode 3 INPUT_PULLUP,
        AttachInterrupt 0 CHANGE, AttachInterrupt 1 CHANGE, Read_position 0 False]
   \<and> iflag (snd (RotEncoder_getPosition 0 (started (levels []))))"
proof -
  let ?s = "started (levels [])"
  have i: "iflag ?s"
    by (simp add: started_def begin_eq RotEncoder_ctor_def modify_def power_on_def)
  from getPosition_snapshot[of 0 ?s] i show ?thesis
    by (simp add: started_trace)
qed

text \<open>
  C8. The destructor runs \<^verbatim>\<open>end()\<close> on the object, with the dynamic type of the base
  class, and drops the result. So it clears the registration slot when the slot holds the
  destroyed object, and leaves the slot, the interrupts and the event log alone otherwise.
  After the registered object is destroyed, \<^verbatim>\<open>begin()\<close> on an object constructed
  afterwards, of either class and at any address, returns true and registers that object.
  (The interrupts that the destructor detaches are those of the pins 2 and 3 that the base
  class names, whatever pins the destroyed object was using.)
\<close>

theorem destructor_releases_registration:
  "RotEncoder_dtor this s =
     snd (RotEncoder_end this (modify this (\<lambda>r. r\<lparr>vptr := RotEncoder_class\<rparr>) s))
   \<and> intHandle (RotEncoder_dtor this s) = (if intHandle s = Some this then None else intHandle s)
   \<and> (intHandle s = Some this \<longrightarrow>
        intHandle (RotEncoder_dtor this s) = None
        \<and> trace (RotEncoder_dtor this s) =
            trace s @ [Store_intHandle None,
                       DetachInterrupt (digitalPinToInterrupt s 2),
                       DetachInterrupt (digitalPinToInterrupt s 3)]
        \<and> fst (RotEncoder_begin that (RotEncoder_ctor ty that (RotEncoder_dtor this s)))
        \<and> intHandle (snd (RotEncoder_begin that (RotEncoder_ctor ty that (RotEncoder_dtor this s)))) = Some that)
   \<and> (intHandle s \<noteq> Some this \<longrightarrow>
        intHandle (RotEncoder_dtor this s) = intHandle s
        \<and> trace (RotEncoder_dtor this s) = trace s
        \<and> vector (RotEncoder_dtor this s) = vector s)"
  by (simp add: dtor_eq end_eq begin_eq modify_def RotEncoder_ctor_def getPinA_def getPinB_def)

text \<open>
  The theorem at a started encoder that is destroyed, followed by an object of class
  \<^verbatim>\<open>RotEncoderPins<4,5>\<close> at address 1; and at the destruction of an object that is not
  the registered one.
\<close>

theorem destructor_releases_registration_witness:
  "intHandle (started (levels [])) = Some 0
   \<and> intHandle (RotEncoder_dtor 0 (started (levels []))) = None
   \<and> trace (RotEncoder_dtor 0 (started (levels []))) =
       [Store_intHandle (Some 0), PinMode 2 INPUT_PULLUP, PinMode 3 INPUT_PULLUP,
        AttachInterrupt 0 CHANGE, AttachInterrupt 1 CHANGE,
        Store_intHandle None, DetachInterrupt 0, DetachInterrupt 1]
   \<and> fst (RotEncoder_begin 1 (RotEncoder_ctor (RotEncoderPins 4 5) 1 (RotEncoder_dtor 0 (started (levels [])))))
   \<and> intHandle (snd (RotEncoder_begin 1 (RotEncoder_ctor (RotEncoderPins 4 5) 1 (RotEncoder_dtor 0 (started (levels [])))))) = Some 1
   \<and> intHandle (RotEncoder_dtor 1 (started (levels []))) = Some 0
   \<and> trace (RotEncoder_dtor 1 (started (levels []))) = trace (started (levels []))"
proof -
  let ?s = "started (levels [])"
  have r: "intHandle ?s = Some 0" by simp
  have n: "intHandle ?s \<noteq> Some 1" by simp
  from destructor_releases_registration[of 0 ?s 1 "RotEncoderPins 4 5"] r
  have a: "intHandle (RotEncoder_dtor 0 ?s) = None
        \<and> trace (RotEncoder_dtor 0 ?s) =
            trace ?s @ [Store_intHandle None,
                       DetachInterrupt (digitalPinToInterrupt ?s 2),
                       DetachInterrupt (digitalPinToInterrupt ?s 3)]
        \<and> fst (RotEncoder_begin 1 (RotEncoder_ctor (RotEncoderPins 4 5) 1 (RotEncoder_dtor 0 ?s)))
        \<and> intHandle (snd (RotEncoder_begin 1 (RotEncoder_ctor (RotEncoderPins 4 5) 1 (RotEncoder_dtor 0 ?s)))) = Some 1"
    by blast
  from destructor_releases_registration[of 1 ?s] n
  have b: "intHandle (RotEncoder_dtor 1 ?s) = intHandle ?s \<and> trace (RotEncoder_dtor 1 ?s) = trace ?s"
    by blast
  from a b r show ?thesis
    by (simp add: started_trace nano_interrupt_def)
qed

text \<open>
  C9. When from some tick \<open>N\<close> on the level of pin A is constant and the level of pin B is
  constant, the re-sampling loop returns, and so does the handler. The last round of the
  loop began at some tick \<open>t\<close>: the stored \<open>inA\<close> is the value read from pin A at \<open>t\<close>, and
  the next read of pin A, at \<open>t + 2\<close>, found the same level; the stored \<open>inB\<close> is the value
  read from pin B at \<open>t + 1\<close>, and the next read of pin B, at \<open>t + 3\<close>, found the same
  level.
\<close>

theorem resampling_terminates:
  assumes "\<forall>k\<ge>N. signal s k (getPinA this s) = a \<and> signal s k (getPinB this s) = b"
  shows "(\<exists>s' t. intr_loop this s = Some s' \<and> clock s \<le> t \<and> clock s' = t + 4
            \<and> inA (heap s' this) = (\<not> signal s t (getPinA this s))
            \<and> signal s (t + 2) (getPinA this s) = signal s t (getPinA this s)
            \<and> inB (heap s' this) = (\<not> signal s (t + 1) (getPinB this s))
            \<and> signal s (t + 3) (getPinB this s) = signal s (t + 1) (getPinB this s))
       \<and> (\<exists>s''. RotEncoder_intr this s = Some s'')"
proof
  from loop_terminates[OF assms] obtain s' where l: "intr_loop this s = Some s'" by blast
  from loop_exit[OF l] obtain t where t: "clock s \<le> t" "agree this s t" "s' = sampled this s t"
    by blast
  from t(3) have "clock s' = t + 4" "inA (heap s' this) = (\<not> signal s t (getPinA this s))"
    "inB (heap s' this) = (\<not> signal s (t + 1) (getPinB this s))"
    by (simp_all add: sampled_def)
  with l t(1,2) show "\<exists>s' t. intr_loop this s = Some s' \<and> clock s \<le> t \<and> clock s' = t + 4
            \<and> inA (heap s' this) = (\<not> signal s t (getPinA this s))
            \<and> signal s (t + 2) (getPinA this s) = signal s t (getPinA this s)
            \<and> inB (heap s' this) = (\<not> signal s (t + 1) (getPinB this s))
            \<and> signal s (t + 3) (getPinB this s) = signal s (t + 1) (getPinB this s)"
    unfolding agree_def by blast
  show "\<exists>s''. RotEncoder_intr this s = Some s''"
    by (rule intr_terminates[OF assms])
qed

text \<open>
  The theorem on an input that changes in the middle of the first round: contact A closes
  at tick 2, the first round disagrees on pin A, and the second round, which begins at
  tick 3, returns the pair \<open>(1,0)\<close>.
\<close>

theorem resampling_terminates_witness:
  "intr_loop 0 (power_on closing) = Some (sampled 0 (power_on closing) 3)
   \<and> inA (heap (sampled 0 (power_on closing) 3) 0)
   \<and> \<not> inB (heap (sampled 0 (power_on closing) 3) 0)
   \<and> (\<exists>s' t. intr_loop 0 (power_on closing) = Some s' \<and> clock (power_on closing) \<le> t \<and> clock s' = t + 4
            \<and> inA (heap s' 0) = (\<not> closing t 2)
            \<and> closing (t + 2) 2 = closing t 2
            \<and> inB (heap s' 0) = (\<not> closing (t + 1) 3)
            \<and> closing (t + 3) 3 = closing (t + 1) 3)
   \<and> (\<exists>s''. RotEncoder_intr 0 (power_on closing) = Some s'')"
proof -
  have pins: "getPinA 0 (power_on closing) = 2" "getPinB 0 (power_on closing) = 3"
    "signal (power_on closing) = closing"
    by (simp_all add: getPinA_def getPinB_def power_on_def)
  have h: "\<forall>k\<ge>2. signal (power_on closing) k (getPinA 0 (power_on closing)) = False
                \<and> signal (power_on closing) k (getPinB 0 (power_on closing)) = True"
    unfolding pins by (simp add: closing_def)
  have v: "inA (heap (sampled 0 (power_on closing) 3) 0)" "\<not> inB (heap (sampled 0 (power_on closing) 3) 0)"
    by (simp_all add: sampled_def pins closing_def)
  from resampling_terminates[OF h] closing_run v show ?thesis
    unfolding pins by blast
qed

text \<open>
  C10. The constructor leaves the count-pending flag clear and the position 0, and does
  not touch the direction flag. Whatever the direction flag holds and whatever pair the
  handler samples, the first invocation of the handler on the new object, before or after
  \<^verbatim>\<open>begin()\<close>, leaves the position at 0.
\<close>

theorem first_interrupt_counts_nothing:
  "\<not> cntflg (heap (RotEncoder_ctor ty this s) this)
   \<and> position (heap (RotEncoder_ctor ty this s) this) = 0
   \<and> lrflg (heap (RotEncoder_ctor ty this s) this) = lrflg (heap s this)
   \<and> (RotEncoder_intr this (RotEncoder_ctor ty this s) = Some s' \<longrightarrow> position (heap s' this) = 0)
   \<and> (RotEncoder_intr this (snd (RotEncoder_begin this (RotEncoder_ctor ty this s))) = Some s'' \<longrightarrow>
        position (heap s'' this) = 0)"
proof (intro conjI impI)
  let ?c = "RotEncoder_ctor ty this s"
  show c: "\<not> cntflg (heap ?c this)" and p: "position (heap ?c this) = 0"
    and "lrflg (heap ?c this) = lrflg (heap s this)"
    by (simp_all add: RotEncoder_ctor_def modify_def)
  {
    assume run: "RotEncoder_intr this ?c = Some s'"
    from intr_step_this[OF run]
    have "position (heap s' this) = position (decoded (inA (heap s' this)) (inB (heap s' this)) (heap ?c this))"
      by simp
    with c p show "position (heap s' this) = 0"
      by (simp add: position_decoded_idle)
  }
  assume run: "RotEncoder_intr this (snd (RotEncoder_begin this ?c)) = Some s''"
  from intr_step_this[OF run]
  have "position (heap s'' this) = position (decoded (inA (heap s'' this)) (inB (heap s'' this)) (heap ?c this))"
    by simp
  with c p show "position (heap s'' this) = 0"
    by (simp add: position_decoded_idle)
qed

text \<open>
  The theorem at an object constructed over memory in which the direction flag was set,
  with an input that shows \<open>(0,1)\<close>, before and after \<^verbatim>\<open>begin()\<close>.
\<close>

theorem first_interrupt_counts_nothing_witness:
  "lrflg (heap (RotEncoder_ctor RotEncoder_class 0 stale) 0)
   \<and> RotEncoder_intr 0 (RotEncoder_ctor RotEncoder_class 0 stale) =
        Some (handled 0 (RotEncoder_ctor RotEncoder_class 0 stale) 0)
   \<and> inB (heap (handled 0 (RotEncoder_ctor RotEncoder_class 0 stale) 0) 0)
   \<and> position (heap (handled 0 (RotEncoder_ctor RotEncoder_class 0 stale) 0) 0) = 0
   \<and> RotEncoder_intr 0 (snd (RotEncoder_begin 0 (RotEncoder_ctor RotEncoder_class 0 stale))) =
        Some (handled 0 (snd (RotEncoder_begin 0 (RotEncoder_ctor RotEncoder_class 0 stale))) 0)
   \<and> position (heap (handled 0 (snd (RotEncoder_begin 0 (RotEncoder_ctor RotEncoder_class 0 stale))) 0) 0) = 0"
proof -
  let ?c = "RotEncoder_ctor RotEncoder_class 0 stale"
  let ?b = "snd (RotEncoder_begin 0 ?c)"
  have l: "lrflg (heap ?c 0)"
    by (simp add: stale_def RotEncoder_ctor_def modify_def)
  have b: "inB (heap (handled 0 ?c 0) 0)"
    by (simp add: heap_handled decoded_def levels_def stale_def RotEncoder_ctor_def modify_def
          power_on_def getPinA_def getPinB_def)
  from first_interrupt_counts_nothing[of RotEncoder_class 0 stale "handled 0 ?c 0" "handled 0 ?b 0"]
    fresh_run fresh_started_run
  have "position (heap (handled 0 ?c 0) 0) = 0 \<and> position (heap (handled 0 ?b 0) 0) = 0" by blast
  with l b fresh_run fresh_started_run show ?thesis by blast
qed

end
